theory Spec2Isabelle
  imports Complex_Main "HOL-Library.Sublist"
begin

section \<open>Python strings\<close>

text \<open>
  A Python \<open>str\<close> is a sequence of Unicode code points, and \<open>len\<close> counts code points.
  A string is therefore a list of code points; \<open>lit\<close> turns an ASCII literal into one.
\<close>

type_synonym pystr = "nat list"

definition lit :: "string \<Rightarrow> pystr" where
  "lit s = map of_char s"

text \<open>
  \<open>str.strip()\<close> and the pattern class \<open>\s\<close> of a \<open>str\<close> pattern both test a code
  point with the interpreter's whitespace table: U+0009..U+000D, U+001C..U+0020, U+0085,
  U+00A0, U+1680, U+2000..U+200A, U+2028, U+2029, U+202F, U+205F and U+3000.
\<close>

definition is_space :: "nat \<Rightarrow> bool" where
  "is_space c \<longleftrightarrow>
     (9 \<le> c \<and> c \<le> 13) \<or> (28 \<le> c \<and> c \<le> 32) \<or> c = 133 \<or> c = 160 \<or> c = 5760 \<or>
     (8192 \<le> c \<and> c \<le> 8202) \<or> c = 8232 \<or> c = 8233 \<or> c = 8239 \<or> c = 8287 \<or> c = 12288"

text \<open>
  The pattern class \<open>\w\<close> is an alphanumeric code point or the underscore. On ASCII that
  is \<open>[0-9A-Za-z_]\<close>; beyond ASCII it is read from the Unicode database, which is not
  part of the repository and is the parameter \<open>ualnum\<close>.
\<close>

definition is_word :: "(nat \<Rightarrow> bool) \<Rightarrow> nat \<Rightarrow> bool" where
  "is_word ualnum c \<longleftrightarrow>
     (if c < 128
      then (48 \<le> c \<and> c \<le> 57) \<or> (65 \<le> c \<and> c \<le> 90) \<or> (97 \<le> c \<and> c \<le> 122) \<or> c = 95
      else ualnum c)"

text \<open>\<open>s.strip()\<close>: whitespace removed at both ends.\<close>

definition strip :: "pystr \<Rightarrow> pystr" where
  "strip s = dropWhile is_space (rev (dropWhile is_space (rev s)))"

text \<open>\<open>s.replace(old, new)\<close> for one-character \<open>old\<close> and \<open>new\<close>.\<close>

definition replace_char :: "nat \<Rightarrow> nat \<Rightarrow> pystr \<Rightarrow> pystr" where
  "replace_char old new s = map (\<lambda>c. if c = old then new else c) s"

text \<open>\<open>re.sub(r'\s+', ' ', s)\<close>: every maximal run of whitespace becomes one space (32).\<close>

function collapse_ws :: "pystr \<Rightarrow> pystr" where
  "collapse_ws [] = []"
| "collapse_ws (c # cs) =
     (if is_space c then 32 # collapse_ws (dropWhile is_space cs) else c # collapse_ws cs)"
  by pat_completeness auto
termination
  by (relation "measure length") (auto simp: length_dropWhile_le less_Suc_eq_le)

text \<open>
  The shape of a string whose whitespace is already collapsed: every whitespace code point
  is a space and is not followed by another whitespace code point.
\<close>

fun spaced :: "pystr \<Rightarrow> bool" where
  "spaced [] = True"
| "spaced (c # cs) =
     (if is_space c then c = 32 \<and> (cs = [] \<or> \<not> is_space (hd cs)) \<and> spaced cs else spaced cs)"

section \<open>TextSanitizer: \<open>sanitize_text_input\<close>\<close>

text \<open>
  The punctuation of the allow-list \<open>[^\w\s\-\.\,\:\;\(\)\'\"\/\&\%\#\@\!]\<close>; 39 is the
  apostrophe and 34 the double quote.
\<close>

definition safe_punct :: "nat \<Rightarrow> bool" where
  "safe_punct c \<longleftrightarrow> c \<in> set (lit ''-.,:;()/&%#@!'') \<or> c = 39 \<or> c = 34"

definition allowed :: "(nat \<Rightarrow> bool) \<Rightarrow> nat \<Rightarrow> bool" where
  "allowed ualnum c \<longleftrightarrow> is_word ualnum c \<or> is_space c \<or> safe_punct c"

text \<open>
  \<open>sanitize_text_input\<close>, step by step as in the source: the empty string is returned
  at once; then \<open>[\<close> (91) and \<open>{\<close> (123) become \<open>(\<close> (40), \<open>]\<close> (93) and \<open>}\<close> (125)
  become \<open>)\<close> (41), the backslash (92) becomes \<open>/\<close> (47), \<open>|\<close> (124) becomes \<open>-\<close> (45),
  and \<open>^\<close> (94), \<open>$\<close> (36), \<open>*\<close> (42), \<open>+\<close> (43), \<open>?\<close> (63) become a space; every code
  point outside the allow-list becomes a space; whitespace is collapsed and stripped.
\<close>

definition sanitize_text_input :: "(nat \<Rightarrow> bool) \<Rightarrow> pystr \<Rightarrow> pystr" where
  "sanitize_text_input ualnum text =
     (if text = [] then []
      else
        let t1 = replace_char 93 41 (replace_char 91 40 text);
            t2 = replace_char 125 41 (replace_char 123 40 t1);
            t3 = replace_char 92 47 t2;
            t4 = replace_char 124 45 t3;
            t5 = replace_char 94 32 t4;
            t6 = replace_char 36 32 t5;
            t7 = replace_char 42 32 t6;
            t8 = replace_char 43 32 t7;
            t9 = replace_char 63 32 t8;
            t10 = map (\<lambda>c. if allowed ualnum c then c else 32) t9
        in strip (collapse_ws t10))"

section \<open>SemanticChunker: \<open>chunk_legal_document\<close>\<close>

text \<open>
  \<open>text.split('\n\n')\<close>: the text is cut at every occurrence of two line feeds (10),
  scanning from the left; \<open>cur\<close> is the piece read so far. The empty text gives one
  empty piece.
\<close>

fun split_nn :: "pystr \<Rightarrow> pystr \<Rightarrow> pystr list" where
  "split_nn cur [] = [cur]"
| "split_nn cur [c] = [cur @ [c]]"
| "split_nn cur (c # d # cs) =
     (if c = 10 \<and> d = 10 then cur # split_nn [] cs else split_nn (cur @ [c]) (d # cs))"

definition split_paragraphs :: "pystr \<Rightarrow> pystr list" where
  "split_paragraphs text = split_nn [] text"

text \<open>
  The state of the two loops is the pair \<open>(chunks, current_chunk)\<close>. The inner loop runs
  over the sentences that NLTK's \<open>sent_tokenize\<close> returns for a paragraph; the tokenizer
  is a library and is the parameter \<open>sent_tokenize\<close> of the chunker. \<open>max_chunk_size\<close>
  is a Python integer.
\<close>

fun sentence_loop :: "int \<Rightarrow> pystr list \<Rightarrow> pystr list \<times> pystr \<Rightarrow> pystr list \<times> pystr" where
  "sentence_loop max_chunk_size [] st = st"
| "sentence_loop max_chunk_size (sentence # sentences) (chunks, current_chunk) =
     (if int (length current_chunk) + int (length sentence) > max_chunk_size
      then (if current_chunk \<noteq> []
            then sentence_loop max_chunk_size sentences
                   (chunks @ [strip current_chunk], sentence)
            else sentence_loop max_chunk_size sentences (chunks @ [sentence], current_chunk))
      else sentence_loop max_chunk_size sentences (chunks, current_chunk @ [32] @ sentence))"

fun paragraph_loop ::
  "(pystr \<Rightarrow> pystr list) \<Rightarrow> int \<Rightarrow> pystr list \<Rightarrow> pystr list \<times> pystr \<Rightarrow> pystr list \<times> pystr"
where
  "paragraph_loop sent_tokenize max_chunk_size [] st = st"
| "paragraph_loop sent_tokenize max_chunk_size (p # paragraphs) (chunks, current_chunk) =
     (let paragraph = strip p in
      if paragraph = [] then
        paragraph_loop sent_tokenize max_chunk_size paragraphs (chunks, current_chunk)
      else if int (length current_chunk) + int (length paragraph) > max_chunk_size then
        (if current_chunk \<noteq> []
         then paragraph_loop sent_tokenize max_chunk_size paragraphs
                (chunks @ [strip current_chunk], paragraph)
         else paragraph_loop sent_tokenize max_chunk_size paragraphs
                (sentence_loop max_chunk_size (sent_tokenize paragraph) (chunks, current_chunk)))
      else
        paragraph_loop sent_tokenize max_chunk_size paragraphs
          (chunks, current_chunk @ [10, 10] @ paragraph))"

definition chunk_legal_document :: "(pystr \<Rightarrow> pystr list) \<Rightarrow> pystr \<Rightarrow> int \<Rightarrow> pystr list" where
  "chunk_legal_document sent_tokenize text max_chunk_size =
     (case paragraph_loop sent_tokenize max_chunk_size (split_paragraphs text) ([], []) of
        (chunks, current_chunk) \<Rightarrow>
          if current_chunk \<noteq> [] then chunks @ [strip current_chunk] else chunks)"

text \<open>The non-whitespace content of a string, in order.\<close>

definition content :: "pystr \<Rightarrow> pystr" where
  "content s = filter (\<lambda>c. \<not> is_space c) s"

text \<open>
  A sample sentence tokenizer for evaluation: it cuts after every full stop (46) that is
  followed by whitespace, and drops that whitespace.
\<close>

function split_sentences :: "pystr \<Rightarrow> pystr \<Rightarrow> pystr list" where
  "split_sentences cur [] = (if cur = [] then [] else [cur])"
| "split_sentences cur (c # cs) =
     (if c = 46 \<and> cs \<noteq> [] \<and> is_space (hd cs)
      then (cur @ [c]) # split_sentences [] (dropWhile is_space cs)
      else split_sentences (cur @ [c]) cs)"
  by pat_completeness auto
termination
  by (relation "measure (\<lambda>(cur, s). length s)") (auto simp: length_dropWhile_le less_Suc_eq_le)

section \<open>The interpreter and the libraries\<close>

text \<open>
  What the pipeline takes from the Python interpreter and from third-party libraries is
  not in the repository. Each such function is a field of \<open>library\<close>, and the
  definitions below take the library as a parameter:
  \<^item> \<open>unicode_alnum\<close>: the Unicode alphanumeric table beyond ASCII (for \<open>\w\<close>);
  \<^item> \<open>unicode_lower\<close>: \<open>str.lower()\<close> on a string that has a non-ASCII code point;
  \<^item> \<open>re_findall_citations\<close>: all matches of the five compiled citation patterns, in
    the order the loop over \<open>compiled_citation_patterns\<close> collects them;
  \<^item> \<open>nltk_sent_tokenize\<close>: NLTK's \<open>sent_tokenize\<close>;
  \<^item> \<open>bs4_get_text\<close>: \<open>BeautifulSoup(text, 'html.parser').get_text()\<close>;
  \<^item> \<open>hashlib_md5\<close>: \<open>hashlib.md5(s.encode()).hexdigest()\<close>;
  \<^item> \<open>builtin_hash\<close>: the built-in \<open>hash\<close> on strings, as the running interpreter
    process computes it;
  \<^item> \<open>np_mean\<close>: \<open>np.mean(vectors, axis=0)\<close>.
\<close>

type_synonym vector = "real list"

record library =
  unicode_alnum :: "nat \<Rightarrow> bool"
  unicode_lower :: "pystr \<Rightarrow> pystr"
  re_findall_citations :: "pystr \<Rightarrow> pystr list"
  nltk_sent_tokenize :: "pystr \<Rightarrow> pystr list"
  bs4_get_text :: "pystr \<Rightarrow> pystr"
  hashlib_md5 :: "pystr \<Rightarrow> pystr"
  builtin_hash :: "pystr \<Rightarrow> int"
  np_mean :: "vector list \<Rightarrow> vector"

text \<open>
  \<open>s.lower()\<close>: on an ASCII string the letters \<open>A\<close>..\<open>Z\<close> (65..90) move to
  \<open>a\<close>..\<open>z\<close>; any other string is lowered by the Unicode tables of the interpreter.
\<close>

definition lower :: "library \<Rightarrow> pystr \<Rightarrow> pystr" where
  "lower L s =
     (if list_all (\<lambda>c. c < 128) s
      then map (\<lambda>c. if 65 \<le> c \<and> c \<le> 90 then c + 32 else c) s
      else unicode_lower L s)"

text \<open>\<open>term in text\<close> on strings is \<^const>\<open>sublist\<close>; \<open>any(term in text for term in terms)\<close>:\<close>

definition any_in :: "string list \<Rightarrow> pystr \<Rightarrow> bool" where
  "any_in terms text = list_ex (\<lambda>term. sublist (lit term) text) terms"

section \<open>LegalClassifier\<close>

text \<open>\<open>self.court_hierarchy\<close> and \<open>self.court_hierarchy.get(level, 0.1)\<close>.\<close>

definition court_hierarchy :: "(pystr \<times> real) list" where
  "court_hierarchy =
     [(lit ''supreme'', 1), (lit ''appellate'', 8 / 10), (lit ''district'', 6 / 10),
      (lit ''administrative'', 4 / 10), (lit ''municipal'', 2 / 10), (lit ''unknown'', 1 / 10)]"

definition court_hierarchy_get :: "pystr \<Rightarrow> real" where
  "court_hierarchy_get level =
     (case map_of court_hierarchy level of Some w \<Rightarrow> w | None \<Rightarrow> 1 / 10)"

text \<open>
  \<open>self.legal_area_patterns\<close>. Every pattern of the table is a sequence of lower-case
  words joined by \<open>\s+\<close>, and is written here as the list of its words.
\<close>

definition legal_area_patterns :: "(string \<times> string list list) list" where
  "legal_area_patterns =
     [(''constitutional'',
        [[''constitutional'', ''law''], [''first'', ''amendment''], [''fourteenth'', ''amendment''],
         [''due'', ''process''], [''equal'', ''protection''], [''bill'', ''of'', ''rights'']]),
      (''contract'',
        [[''contract'', ''law''], [''breach'', ''of'', ''contract''], [''consideration''],
         [''offer'', ''and'', ''acceptance''], [''contractual'', ''obligation'']]),
      (''tort'',
        [[''tort'', ''law''], [''negligence''], [''personal'', ''injury''], [''defamation''],
         [''intentional'', ''tort''], [''strict'', ''liability'']]),
      (''criminal'',
        [[''criminal'', ''law''], [''criminal'', ''procedure''], [''evidence''],
         [''sentencing''], [''fourth'', ''amendment'']]),
      (''corporate'',
        [[''corporate'', ''law''], [''securities''], [''mergers'', ''and'', ''acquisitions''],
         [''corporate'', ''governance''], [''fiduciary'', ''duty'']]),
      (''property'',
        [[''property'', ''law''], [''real'', ''estate''], [''intellectual'', ''property''],
         [''trademark''], [''copyright''], [''patent'']])]"

text \<open>
  \<open>re.search\<close> for such a pattern: \<open>match_at\<close> matches the words at the start of the
  text, with one or more whitespace code points between two words (the words start with
  a letter, so the greedy \<open>\s+\<close> takes the whole run); \<open>re_search\<close> tries every position.
\<close>

fun match_at :: "pystr list \<Rightarrow> pystr \<Rightarrow> bool" where
  "match_at [] t = True"
| "match_at [w] t = prefix w t"
| "match_at (w # v # ws) t =
     (prefix w t \<and>
      (let r = drop (length w) t
       in r \<noteq> [] \<and> is_space (hd r) \<and> match_at (v # ws) (dropWhile is_space r)))"

fun re_search :: "pystr list \<Rightarrow> pystr \<Rightarrow> bool" where
  "re_search ws [] = match_at ws []"
| "re_search ws (c # cs) = (match_at ws (c # cs) \<or> re_search ws cs)"

record metadata =
  md_court_level :: pystr
  md_jurisdiction :: pystr
  md_legal_areas :: "pystr list"
  md_authority_weight :: real
  md_binding_jurisdictions :: "pystr list"
  md_citations_extracted :: "pystr list"
  md_citations_validated :: "(pystr \<times> bool \<times> pystr) list"

text \<open>The initial \<open>metadata\<close> dictionary of \<open>extract_legal_metadata\<close>.\<close>

definition default_metadata :: metadata where
  "default_metadata =
     \<lparr>md_court_level = lit ''unknown'', md_jurisdiction = lit ''unknown'', md_legal_areas = [],
      md_authority_weight = 1 / 10, md_binding_jurisdictions = [],
      md_citations_extracted = [], md_citations_validated = []\<rparr>"

text \<open>The \<open>if\<close>/\<open>elif\<close> chain under \<open># Extract court level\<close>.\<close>

definition extract_court_level :: "pystr \<Rightarrow> pystr" where
  "extract_court_level text_lower =
     (if any_in [''supreme court'', ''scotus''] text_lower then lit ''supreme''
      else if any_in [''court of appeals'', ''appellate'', ''circuit''] text_lower then lit ''appellate''
      else if any_in [''district court'', ''trial court''] text_lower then lit ''district''
      else if any_in [''administrative'', ''agency''] text_lower then lit ''administrative''
      else lit ''unknown'')"

text \<open>The chain under \<open># Extract jurisdiction\<close>.\<close>

definition extract_jurisdiction :: "pystr \<Rightarrow> pystr" where
  "extract_jurisdiction text_lower =
     (if any_in [''united states'', ''federal'', ''u.s.''] text_lower then lit ''federal''
      else if any_in [''state'', ''commonwealth''] text_lower then lit ''state''
      else if any_in [''municipal'', ''city'', ''county''] text_lower then lit ''local''
      else lit ''unknown'')"

text \<open>
  The loop under \<open># Extract legal areas\<close>: an area is appended once, at its first pattern
  that matches. \<open>list(set(...))\<close> then leaves the areas in an order the source does not
  fix; the model keeps the order of the table.
\<close>

definition extract_legal_areas :: "pystr \<Rightarrow> pystr list" where
  "extract_legal_areas text_lower =
     map (\<lambda>(area, patterns). lit area)
       (filter (\<lambda>(area, patterns). list_ex (\<lambda>p. re_search (map lit p) text_lower) patterns)
          legal_area_patterns)"

text \<open>
  \<open>extract_legal_metadata\<close>. The citations are the library's matches without
  duplicates (again in an order that \<open>list(set(...))\<close> does not fix); each is recorded
  as valid with the court level as its authority level.
\<close>

definition extract_legal_metadata :: "library \<Rightarrow> pystr \<Rightarrow> pystr \<Rightarrow> metadata" where
  "extract_legal_metadata L text case_name =
     (if text = [] then default_metadata
      else
        let text_lower = lower L text;
            court_level = extract_court_level text_lower;
            citations = remdups (re_findall_citations L text)
        in \<lparr>md_court_level = court_level,
            md_jurisdiction = extract_jurisdiction text_lower,
            md_legal_areas = extract_legal_areas text_lower,
            md_authority_weight = court_hierarchy_get court_level,
            md_binding_jurisdictions = [],
            md_citations_extracted = citations,
            md_citations_validated = map (\<lambda>c. (c, True, court_level)) citations\<rparr>)"

text \<open>\<open>determine_court_level\<close> and \<open>calculate_court_authority_weight\<close>, used for court rows.\<close>

definition determine_court_level :: "library \<Rightarrow> pystr \<Rightarrow> pystr" where
  "determine_court_level L court_name =
     (let court_name_lower = lower L court_name in
      if sublist (lit ''supreme'') court_name_lower then lit ''supreme''
      else if any_in [''appeal'', ''appellate'', ''circuit''] court_name_lower then lit ''appellate''
      else if any_in [''district'', ''trial'', ''superior''] court_name_lower then lit ''district''
      else lit ''unknown'')"

definition calculate_court_authority_weight :: "library \<Rightarrow> pystr \<Rightarrow> real" where
  "calculate_court_authority_weight L court_name =
     (let court_level = determine_court_level L court_name;
          weights = [(lit ''supreme'', 1), (lit ''appellate'', 8 / 10), (lit ''district'', 6 / 10),
                     (lit ''unknown'', 3 / 10)]
      in case map_of weights court_level of Some w \<Rightarrow> w | None \<Rightarrow> 3 / 10)"

text \<open>
  A sample library for evaluation on ASCII inputs: no alphanumerics beyond ASCII, one
  sentence per paragraph, no citation matches, and stand-ins for the hash functions.
\<close>

definition sample_library :: library where
  "sample_library =
     \<lparr>unicode_alnum = (\<lambda>c. False), unicode_lower = (\<lambda>s. s),
      re_findall_citations = (\<lambda>s. []), nltk_sent_tokenize = (\<lambda>p. [p]),
      bs4_get_text = (\<lambda>s. s), hashlib_md5 = (\<lambda>s. s),
      builtin_hash = (\<lambda>s. int (length s)), np_mean = (\<lambda>vs. [])\<rparr>"

section \<open>ContextBudgeter: \<open>optimize_for_deepseek_r1\<close>\<close>

text \<open>
  \<open>self.deepseek_tokenizer\<close> is \<open>None\<close> when the tokenizer could not be loaded. A
  loaded tokenizer is a library object with \<open>encode\<close> and \<open>decode\<close>.
\<close>

record tokenizer =
  tok_encode :: "pystr \<Rightarrow> nat list"
  tok_decode :: "nat list \<Rightarrow> pystr"

text \<open>The literal that the source splices in.\<close>

definition truncation_marker :: pystr where
  "truncation_marker =
     lit ''\<newline>\<newline>[... CONTENT TRUNCATED FOR DEEPSEEK R1 OPTIMIZATION ...]\<newline>\<newline>''"

text \<open>
  \<open>tokens[:keep_start]\<close> is \<open>take\<close>; \<open>tokens[-keep_end:]\<close> with \<open>keep_end > 0\<close> is the last
  \<open>keep_end\<close> tokens; \<open>s[:k]\<close> and \<open>s[k:]\<close> are \<open>take\<close> and \<open>drop\<close>, also when \<open>k\<close> is
  beyond the end of \<open>s\<close>.
\<close>

definition optimize_for_deepseek_r1 :: "tokenizer option \<Rightarrow> pystr \<Rightarrow> pystr" where
  "optimize_for_deepseek_r1 deepseek_tokenizer text =
     (case deepseek_tokenizer of
        None \<Rightarrow> text
      | Some tk \<Rightarrow>
          let max_tokens = 32000 :: nat;
              tokens = tok_encode tk text
          in if length tokens \<le> max_tokens then text
             else
               let keep_start = max_tokens div 3;
                   keep_end = max_tokens div 3;
                   start_tokens = take keep_start tokens;
                   end_tokens = drop (length tokens - keep_end) tokens;
                   truncated_tokens = start_tokens @ end_tokens;
                   optimized_text = tok_decode tk truncated_tokens;
                   k = length (tok_decode tk start_tokens)
               in take k optimized_text @ truncation_marker @ drop k optimized_text)"

text \<open>A sample tokenizer for evaluation: one token per code point.\<close>

definition char_tokenizer :: tokenizer where
  "char_tokenizer = \<lparr>tok_encode = (\<lambda>s. s), tok_decode = (\<lambda>ts. ts)\<rparr>"

section \<open>Documents and per-document processing\<close>

text \<open>
  The dataclass \<open>LegalDocument\<close>. \<open>embedding\<close> and \<open>chunk_embeddings\<close> are \<open>None\<close>
  until they are set. A validated citation is the triple of its \<open>citation\<close>, \<open>valid\<close>
  and \<open>authority_level\<close> entries.
\<close>

record legal_document =
  ld_id :: pystr
  ld_case_name :: pystr
  ld_citation :: pystr
  ld_court :: pystr
  ld_court_level :: pystr
  ld_jurisdiction :: pystr
  ld_date_decided :: pystr
  ld_full_text :: pystr
  ld_plain_text :: pystr
  ld_legal_areas :: "pystr list"
  ld_authority_weight :: real
  ld_binding_jurisdictions :: "pystr list"
  ld_citations_extracted :: "pystr list"
  ld_citations_validated :: "(pystr \<times> bool \<times> pystr) list"
  ld_embedding :: "vector option"
  ld_chunk_embeddings :: "vector list option"
  ld_metadata :: metadata

text \<open>
  A raw record \<open>doc_data\<close> is a dictionary. The model gives each key the functions read or
  write a field, \<open>None\<close> when the key is absent, and takes the values to have the types
  the converters give them.
\<close>

record doc_data =
  dd_id :: "pystr option"
  dd_case_name :: "pystr option"
  dd_citation :: "pystr option"
  dd_court :: "pystr option"
  dd_court_level :: "pystr option"
  dd_jurisdiction :: "pystr option"
  dd_date_decided :: "pystr option"
  dd_full_text :: "pystr option"
  dd_plain_text :: "pystr option"
  dd_html :: "pystr option"
  dd_legal_areas :: "pystr list option"
  dd_authority_weight :: "real option"
  dd_binding_jurisdictions :: "pystr list option"
  dd_citations_extracted :: "pystr list option"
  dd_citations_validated :: "(pystr \<times> bool \<times> pystr) list option"

text \<open>\<open>d.get(key, default)\<close>.\<close>

definition get_or :: "'a option \<Rightarrow> 'a \<Rightarrow> 'a" where
  "get_or v dflt = (case v of None \<Rightarrow> dflt | Some x \<Rightarrow> x)"

text \<open>
  \<open>re.sub(r'\n\s*\n', '\n\n', text)\<close>: a match starts at a line feed (10) and, the
  \<open>\s*\<close> being greedy, ends at the last line feed of the whitespace run that follows it.
\<close>

function sub_blank_lines :: "pystr \<Rightarrow> pystr" where
  "sub_blank_lines [] = []"
| "sub_blank_lines (c # cs) =
     (let run = takeWhile is_space cs in
      if c = 10 \<and> 10 \<in> set run
      then 10 # 10 #
           sub_blank_lines (drop (length run - length (takeWhile (\<lambda>x. x \<noteq> 10) (rev run))) cs)
      else c # sub_blank_lines cs)"
  by pat_completeness auto
termination
  by (relation "measure length") auto

text \<open>\<open>re.sub(r'[.]{3,}', '...', text)\<close>: a run of three or more full stops (46) becomes three.\<close>

function cap_dots :: "pystr \<Rightarrow> pystr" where
  "cap_dots [] = []"
| "cap_dots (c # cs) =
     (let run = takeWhile (\<lambda>x. x = 46) (c # cs) in
      if length run \<ge> 3 then [46, 46, 46] @ cap_dots (drop (length run) (c # cs))
      else c # cap_dots cs)"
  by pat_completeness auto
termination
  by (relation "measure length") auto

text \<open>Exceptions of the Python code that the model keeps as values.\<close>

datatype py_error = ReError

text \<open>
  The last substitution of \<open>clean_text\<close> is \<open>re.sub(r'['']', "'", text)\<close>. Its first
  argument is the two adjacent literals \<open>r'['\<close> and \<open>']'\<close>, that is the pattern \<open>[]\<close>,
  which \<open>re\<close> refuses to compile (\<open>re.error\<close>: unterminated character set). The call
  raises whatever the text is.
\<close>

definition re_sub_apostrophe :: "pystr \<Rightarrow> py_error + pystr" where
  "re_sub_apostrophe text = Inl ReError"

text \<open>
  \<open>clean_text\<close>. The empty text is returned at once. Otherwise the markup is removed by
  BeautifulSoup when the text has both \<open><\<close> (60) and \<open>>\<close> (62), whitespace is
  collapsed, blank lines and runs of full stops are normalised, the class \<open>[""]\<close> replaces
  the double quote (34) by itself, and the last substitution raises, so that
  \<open>return text.strip()\<close> is reached by no text but the empty one.
\<close>

definition clean_text :: "library \<Rightarrow> pystr \<Rightarrow> py_error + pystr" where
  "clean_text L text =
     (if text = [] then Inr []
      else
        let t1 = (if 60 \<in> set text \<and> 62 \<in> set text then bs4_get_text L text else text);
            t2 = collapse_ws t1;
            t3 = sub_blank_lines t2;
            t4 = cap_dots t3;
            t5 = replace_char 34 34 t4
        in case re_sub_apostrophe t5 of
             Inl e \<Rightarrow> Inl e
           | Inr t6 \<Rightarrow> Inr (strip t6))"

text \<open>
  The pipeline object \<open>self\<close>: the libraries, the tokenizer (\<open>None\<close> when it failed to
  load), the embedding model's \<open>encode\<close> on a batch of texts (\<open>None\<close> when the call
  raises), and whether a Qdrant client is available.
\<close>

record pipeline =
  self_lib :: library
  self_deepseek_tokenizer :: "tokenizer option"
  self_embedding_model :: "pystr list \<Rightarrow> vector list option"
  self_qdrant_client :: bool

text \<open>\<open>[xs[i:i + n] for i in range(0, len(xs), n)]\<close>, for a batch size \<open>n > 0\<close>.\<close>

function batches_of :: "nat \<Rightarrow> 'a list \<Rightarrow> 'a list list" where
  "batches_of n xs = (if xs = [] \<or> n = 0 then [] else take n xs # batches_of n (drop n xs))"
  by pat_completeness auto
termination
  by (relation "measure (\<lambda>(n, xs). length xs)") auto

declare batches_of.simps [simp del]

text \<open>
  \<open>generate_embeddings\<close>: batches of 32; an exception in any batch is caught and the
  whole call returns the empty list.
\<close>

fun encode_batches :: "(pystr list \<Rightarrow> vector list option) \<Rightarrow> pystr list list \<Rightarrow> vector list option" where
  "encode_batches encode [] = Some []"
| "encode_batches encode (batch # rest) =
     (case encode batch of
        None \<Rightarrow> None
      | Some batch_embeddings \<Rightarrow>
          (case encode_batches encode rest of
             None \<Rightarrow> None
           | Some embeddings \<Rightarrow> Some (batch_embeddings @ embeddings)))"

definition generate_embeddings :: "pipeline \<Rightarrow> pystr list \<Rightarrow> vector list" where
  "generate_embeddings self texts =
     (if texts = [] then []
      else case encode_batches (self_embedding_model self) (batches_of 32 texts) of
             None \<Rightarrow> []
           | Some embeddings \<Rightarrow> embeddings)"

text \<open>
  The body of \<open>process_legal_document\<close> from the line after the call of \<open>clean_text\<close>
  to \<open>return legal_doc\<close>, as a function of the values bound before it. The metadata are
  those of \<open>extract_legal_metadata\<close> on the cleaned text: no key of \<open>doc_data\<close> other
  than \<open>case_name\<close>, \<open>citation\<close>, \<open>court\<close>, \<open>plain_text\<close>, \<open>html\<close> and \<open>date_decided\<close>
  is read.
\<close>

definition process_cleaned_document ::
  "pipeline \<Rightarrow> doc_data \<Rightarrow> pystr \<Rightarrow> pystr \<Rightarrow> pystr \<Rightarrow> pystr \<Rightarrow> pystr \<Rightarrow> legal_document"
where
  "process_cleaned_document self d case_name citation court full_text plain_text =
     (let L = self_lib self;
          optimized_text = optimize_for_deepseek_r1 (self_deepseek_tokenizer self) plain_text;
          metadata = extract_legal_metadata L plain_text case_name;
          doc_id = hashlib_md5 L (case_name @ lit ''_'' @ citation);
          chunks = chunk_legal_document (nltk_sent_tokenize L) optimized_text 1000;
          chunk_embeddings = (if chunks \<noteq> [] then Some (generate_embeddings self chunks) else None);
          embedding = (case chunk_embeddings of
                         Some (e # es) \<Rightarrow> Some (np_mean L (e # es))
                       | _ \<Rightarrow> None)
      in \<lparr>ld_id = doc_id, ld_case_name = case_name, ld_citation = citation, ld_court = court,
          ld_court_level = md_court_level metadata,
          ld_jurisdiction = md_jurisdiction metadata,
          ld_date_decided = get_or (dd_date_decided d) [],
          ld_full_text = full_text, ld_plain_text = optimized_text,
          ld_legal_areas = md_legal_areas metadata,
          ld_authority_weight = md_authority_weight metadata,
          ld_binding_jurisdictions = md_binding_jurisdictions metadata,
          ld_citations_extracted = md_citations_extracted metadata,
          ld_citations_validated = md_citations_validated metadata,
          ld_embedding = embedding, ld_chunk_embeddings = chunk_embeddings,
          ld_metadata = metadata\<rparr>)"

text \<open>
  \<open>process_legal_document\<close>. \<open>None\<close> is the early return for a record without text,
  and the return of the outer \<open>except Exception\<close>, which catches the \<open>re.error\<close> of
  \<open>clean_text\<close>. The other library functions are total in the model.
\<close>

definition process_legal_document :: "pipeline \<Rightarrow> doc_data \<Rightarrow> legal_document option" where
  "process_legal_document self d =
     (let L = self_lib self;
          case_name = sanitize_text_input (unicode_alnum L) (get_or (dd_case_name d) (lit ''Unknown Case''));
          citation = sanitize_text_input (unicode_alnum L) (get_or (dd_citation d) []);
          court = sanitize_text_input (unicode_alnum L) (get_or (dd_court d) (lit ''Unknown Court''));
          full_text = get_or (dd_plain_text d) (get_or (dd_html d) [])
      in if full_text = [] then None
         else
           case clean_text L full_text of
             Inl e \<Rightarrow> None
           | Inr plain_text \<Rightarrow>
               Some (process_cleaned_document self d case_name citation court full_text plain_text))"

text \<open>
  \<open>convert_citation_row_to_document\<close>. A CSV row is a dictionary from column names to
  strings. The arrow of the case name is U+2192 (8594).
\<close>

definition convert_citation_row_to_document :: "library \<Rightarrow> (string \<Rightarrow> pystr option) \<Rightarrow> doc_data" where
  "convert_citation_row_to_document L row =
     (let citing_opinion = sanitize_text_input (unicode_alnum L) (get_or (row ''citing_opinion'') (lit ''Unknown''));
          cited_opinion = sanitize_text_input (unicode_alnum L) (get_or (row ''cited_opinion'') (lit ''Unknown''));
          citation_id = sanitize_text_input (unicode_alnum L) (get_or (row ''id'') [])
      in \<lparr>dd_id = Some (lit ''citation_'' @ citation_id),
          dd_case_name = Some (lit ''Citation Network: '' @ citing_opinion @ [32, 8594, 32] @ cited_opinion),
          dd_citation = Some (lit ''Citation ID: '' @ citation_id),
          dd_court = Some (lit ''Citation Database''),
          dd_court_level = Some (lit ''database''),
          dd_jurisdiction = Some (lit ''multi_jurisdiction''),
          dd_date_decided = Some [],
          dd_full_text = Some (lit ''Citation relationship: '' @ citing_opinion @ lit '' cites '' @ cited_opinion),
          dd_plain_text = Some (lit ''This citation links opinion '' @ citing_opinion @ lit '' to ''
                                @ cited_opinion @ lit ''.''),
          dd_html = None,
          dd_legal_areas = Some [lit ''citation_analysis''],
          dd_authority_weight = Some (1 / 2),
          dd_binding_jurisdictions = Some [lit ''multi_jurisdiction''],
          dd_citations_extracted = Some [cited_opinion],
          dd_citations_validated = Some []\<rparr>)"

text \<open>A sample pipeline for evaluation.\<close>

definition sample_pipeline :: pipeline where
  "sample_pipeline =
     \<lparr>self_lib = sample_library, self_deepseek_tokenizer = None,
      self_embedding_model = (\<lambda>texts. Some (map (\<lambda>t. [real (length t)]) texts)),
      self_qdrant_client = True\<rparr>"

section \<open>IndexWriter: \<open>store_in_sqlite\<close> and \<open>store_in_qdrant\<close>\<close>

text \<open>\<open>str(i)\<close> for a chunk index: the decimal digits of a natural number.\<close>

function str_nat :: "nat \<Rightarrow> pystr" where
  "str_nat n = (if n < 10 then [48 + n] else str_nat (n div 10) @ [48 + n mod 10])"
  by pat_completeness auto
termination
  by (relation "measure (\<lambda>n. n)") auto

declare str_nat.simps [simp del]

text \<open>
  The relational cache. A row of \<open>documents\<close> has the fifteen columns that
  \<open>store_in_sqlite\<close> writes (\<open>processed_at\<close> is filled by SQLite); the JSON columns hold
  \<open>json.dumps\<close> of a value and the \<open>embedding\<close> column holds \<open>embedding.tobytes()\<close>, and
  the model keeps the values themselves. A table is the list of its rows in insertion
  order.
\<close>

record document_row =
  row_id :: pystr
  row_case_name :: pystr
  row_citation :: pystr
  row_court :: pystr
  row_court_level :: pystr
  row_jurisdiction :: pystr
  row_date_decided :: pystr
  row_full_text :: pystr
  row_plain_text :: pystr
  row_legal_areas :: "pystr list"
  row_authority_weight :: real
  row_binding_jurisdictions :: "pystr list"
  row_citations_extracted :: "pystr list"
  row_citations_validated :: "(pystr \<times> bool \<times> pystr) list"
  row_metadata :: metadata

record embedding_row =
  er_document_id :: pystr
  er_chunk_id :: nat
  er_embedding :: vector
  er_chunk_text :: pystr

record sqlite_db =
  db_documents :: "document_row list"
  db_embeddings :: "embedding_row list"

definition document_row_of :: "legal_document \<Rightarrow> document_row" where
  "document_row_of doc =
     \<lparr>row_id = ld_id doc, row_case_name = ld_case_name doc, row_citation = ld_citation doc,
      row_court = ld_court doc, row_court_level = ld_court_level doc,
      row_jurisdiction = ld_jurisdiction doc, row_date_decided = ld_date_decided doc,
      row_full_text = ld_full_text doc, row_plain_text = ld_plain_text doc,
      row_legal_areas = ld_legal_areas doc, row_authority_weight = ld_authority_weight doc,
      row_binding_jurisdictions = ld_binding_jurisdictions doc,
      row_citations_extracted = ld_citations_extracted doc,
      row_citations_validated = ld_citations_validated doc,
      row_metadata = ld_metadata doc\<rparr>"

text \<open>
  \<open>INSERT OR REPLACE INTO documents\<close>: \<open>id\<close> is the primary key, so a row with the same
  \<open>id\<close> is deleted before the new row is inserted. The table \<open>embeddings\<close> is created
  without a key, so \<open>INSERT OR REPLACE INTO embeddings\<close> only inserts.
\<close>

definition insert_or_replace_document :: "document_row \<Rightarrow> document_row list \<Rightarrow> document_row list" where
  "insert_or_replace_document row tbl = filter (\<lambda>r. row_id r \<noteq> row_id row) tbl @ [row]"

text \<open>
  The body of the loop of \<open>store_in_sqlite\<close> for one document. \<open>if doc.chunk_embeddings\<close>
  is false for \<open>None\<close> and for the empty list; \<open>enumerate\<close> numbers the chunks from 0. The
  SQLite calls are taken not to raise.
\<close>

definition store_document :: "sqlite_db \<Rightarrow> legal_document \<Rightarrow> sqlite_db" where
  "store_document db doc =
     (let db1 = db\<lparr>db_documents := insert_or_replace_document (document_row_of doc) (db_documents db)\<rparr>
      in case ld_chunk_embeddings doc of
           None \<Rightarrow> db1
         | Some es \<Rightarrow>
             if es = [] then db1
             else db1\<lparr>db_embeddings :=
                        db_embeddings db1 @
                        map (\<lambda>(i, embedding).
                               \<lparr>er_document_id = ld_id doc, er_chunk_id = i, er_embedding = embedding,
                                er_chunk_text = lit ''Chunk '' @ str_nat i\<rparr>)
                          (List.enumerate 0 es)\<rparr>)"

definition store_in_sqlite :: "sqlite_db \<Rightarrow> legal_document list \<Rightarrow> sqlite_db" where
  "store_in_sqlite db legal_docs = foldl store_document db legal_docs"

definition empty_db :: sqlite_db where
  "empty_db = \<lparr>db_documents = [], db_embeddings = []\<rparr>"

text \<open>
  The similarity index. A point has an identifier, a vector and a payload; a key that a
  payload does not have is \<open>None\<close>.
\<close>

record payload =
  pl_case_name :: pystr
  pl_citation :: "pystr option"
  pl_court :: "pystr option"
  pl_court_level :: pystr
  pl_jurisdiction :: pystr
  pl_date_decided :: "pystr option"
  pl_legal_areas :: "pystr list"
  pl_authority_weight :: real
  pl_binding_jurisdictions :: "pystr list option"
  pl_citations_count :: "nat option"
  pl_text_length :: "nat option"
  pl_chunk_count :: "nat option"
  pl_parent_document_id :: "pystr option"
  pl_chunk_index :: "nat option"
  pl_is_chunk :: "bool option"

record point =
  pt_id :: int
  pt_vector :: vector
  pt_payload :: payload

text \<open>
  The two \<open>PointStruct\<close>s of \<open>store_in_qdrant\<close>. The identifier is
  \<open>hash(doc.id) % (2**63)\<close>, and \<open>hash(f"{doc.id}_chunk_{i}") % (2**63)\<close> for chunk \<open>i\<close>,
  with the built-in \<open>hash\<close> of the interpreter.
\<close>

definition document_point :: "library \<Rightarrow> legal_document \<Rightarrow> vector \<Rightarrow> point" where
  "document_point L doc v =
     \<lparr>pt_id = builtin_hash L (ld_id doc) mod 2 ^ 63,
      pt_vector = v,
      pt_payload =
        \<lparr>pl_case_name = ld_case_name doc, pl_citation = Some (ld_citation doc),
         pl_court = Some (ld_court doc), pl_court_level = ld_court_level doc,
         pl_jurisdiction = ld_jurisdiction doc, pl_date_decided = Some (ld_date_decided doc),
         pl_legal_areas = ld_legal_areas doc, pl_authority_weight = ld_authority_weight doc,
         pl_binding_jurisdictions = Some (ld_binding_jurisdictions doc),
         pl_citations_count = Some (length (ld_citations_extracted doc)),
         pl_text_length = Some (length (ld_plain_text doc)),
         pl_chunk_count = Some (case ld_chunk_embeddings doc of None \<Rightarrow> 0 | Some es \<Rightarrow> length es),
         pl_parent_document_id = None, pl_chunk_index = None, pl_is_chunk = None\<rparr>\<rparr>"

definition chunk_point :: "library \<Rightarrow> legal_document \<Rightarrow> nat \<Rightarrow> vector \<Rightarrow> point" where
  "chunk_point L doc i chunk_embedding =
     \<lparr>pt_id = builtin_hash L (ld_id doc @ lit ''_chunk_'' @ str_nat i) mod 2 ^ 63,
      pt_vector = chunk_embedding,
      pt_payload =
        \<lparr>pl_case_name = ld_case_name doc, pl_citation = None, pl_court = None,
         pl_court_level = ld_court_level doc, pl_jurisdiction = ld_jurisdiction doc,
         pl_date_decided = None, pl_legal_areas = ld_legal_areas doc,
         pl_authority_weight = ld_authority_weight doc, pl_binding_jurisdictions = None,
         pl_citations_count = None, pl_text_length = None, pl_chunk_count = None,
         pl_parent_document_id = Some (ld_id doc), pl_chunk_index = Some i,
         pl_is_chunk = Some True\<rparr>\<rparr>"

text \<open>The points that the loop of \<open>store_in_qdrant\<close> collects for one document.\<close>

definition points_of :: "library \<Rightarrow> legal_document \<Rightarrow> point list" where
  "points_of L doc =
     (case ld_embedding doc of
        None \<Rightarrow> []
      | Some v \<Rightarrow>
          document_point L doc v #
          (case ld_chunk_embeddings doc of
             None \<Rightarrow> []
           | Some es \<Rightarrow> map (\<lambda>(i, e). chunk_point L doc i e) (List.enumerate 0 es)))"

text \<open>
  \<open>qdrant_client.upsert\<close>, the contract of the index: the points are written in order,
  and a point replaces the point of the collection that has its identifier. The call is
  taken not to raise.
\<close>

definition upsert_point :: "point list \<Rightarrow> point \<Rightarrow> point list" where
  "upsert_point collection p = filter (\<lambda>q. pt_id q \<noteq> pt_id p) collection @ [p]"

definition qdrant_upsert :: "point list \<Rightarrow> point list \<Rightarrow> point list" where
  "qdrant_upsert collection points = foldl upsert_point collection points"

definition store_in_qdrant :: "pipeline \<Rightarrow> point list \<Rightarrow> legal_document list \<Rightarrow> point list" where
  "store_in_qdrant self collection legal_docs =
     (if \<not> self_qdrant_client self then collection
      else
        let points = concat (map (points_of (self_lib self)) legal_docs)
        in if points \<noteq> [] then qdrant_upsert collection points else collection)"

text \<open>
  A sample document for evaluation, with one chunk, and a second interpreter process: the
  sample pipeline with another string hash.
\<close>

definition sample_document :: legal_document where
  "sample_document =
     \<lparr>ld_id = lit ''d41d8'', ld_case_name = lit ''Roe v. Wade'', ld_citation = lit ''410 U.S. 113'',
      ld_court = lit ''Supreme Court'', ld_court_level = lit ''supreme'',
      ld_jurisdiction = lit ''federal'', ld_date_decided = [],
      ld_full_text = lit ''Held: affirmed.'', ld_plain_text = lit ''Held: affirmed.'',
      ld_legal_areas = [], ld_authority_weight = 1, ld_binding_jurisdictions = [],
      ld_citations_extracted = [], ld_citations_validated = [],
      ld_embedding = Some [1], ld_chunk_embeddings = Some [[1]],
      ld_metadata = default_metadata\<rparr>"

definition second_process :: pipeline where
  "second_process =
     sample_pipeline\<lparr>self_lib := sample_library\<lparr>builtin_hash := (\<lambda>s. int (length s) + 100)\<rparr>\<rparr>"

section \<open>Checkpointing: \<open>process_courtlistener_files\<close>\<close>

text \<open>The four \<open>endswith\<close> tests; any other file is skipped.\<close>

definition supported_file :: "pystr \<Rightarrow> bool" where
  "supported_file file_path \<longleftrightarrow>
     suffix (lit ''.tar.gz'') file_path \<or> suffix (lit ''.json.gz'') file_path \<or>
     suffix (lit ''.json'') file_path \<or> suffix (lit ''.csv.bz2'') file_path"

text \<open>\<open>xs[-n:]\<close> for \<open>n > 0\<close>: the last \<open>n\<close> elements, the whole list when it is shorter.\<close>

definition last_n :: "nat \<Rightarrow> 'a list \<Rightarrow> 'a list" where
  "last_n n xs = drop (length xs - n) xs"

text \<open>
  The loops of \<open>process_courtlistener_files\<close>, for any per-document function \<open>process\<close>
  and any flush \<open>store\<close> on a state of the stores. The state of the loops is
  \<open>all_legal_docs\<close>, the stores and \<open>stats.processed_documents\<close>. A batch of 100 records
  is submitted to the thread pool and the documents that are not \<open>None\<close> are appended;
  the model appends them in the order of submission, where the source appends them in
  the order of completion. After each batch, \<open>if len(all_legal_docs) >= 1000\<close> flushes
  \<open>all_legal_docs[-1000:]\<close>. \<open>read\<close> gives the records that the reader of a file's
  format returns for a path.
\<close>

fun batch_loop ::
  "('r \<Rightarrow> 'd option) \<Rightarrow> ('d list \<Rightarrow> 's \<Rightarrow> 's) \<Rightarrow> 'r list list \<Rightarrow> 'd list \<times> 's \<times> nat \<Rightarrow> 'd list \<times> 's \<times> nat"
where
  "batch_loop process store [] st = st"
| "batch_loop process store (batch # rest) (all_legal_docs, s, processed_documents) =
     (let docs = all_legal_docs @ List.map_filter process batch
      in if length docs \<ge> 1000
         then batch_loop process store rest
                (docs, store (last_n 1000 docs) s, processed_documents + length (last_n 1000 docs))
         else batch_loop process store rest (docs, s, processed_documents))"

fun file_loop ::
  "(pystr \<Rightarrow> 'r list) \<Rightarrow> ('r \<Rightarrow> 'd option) \<Rightarrow> ('d list \<Rightarrow> 's \<Rightarrow> 's) \<Rightarrow> pystr list \<Rightarrow>
   'd list \<times> 's \<times> nat \<Rightarrow> 'd list \<times> 's \<times> nat"
where
  "file_loop read process store [] st = st"
| "file_loop read process store (file_path # files) st =
     (if supported_file file_path
      then file_loop read process store files
             (batch_loop process store (batches_of 100 (read file_path)) st)
      else file_loop read process store files st)"

text \<open>
  The whole function: the loops, then \<open># Store remaining documents\<close>, which flushes
  \<open>all_legal_docs[-remaining:]\<close> for \<open>remaining = len(all_legal_docs) % 1000\<close> when it is
  positive. The result is \<open>all_legal_docs\<close>, the stores and the counter.
\<close>

definition checkpointed_run ::
  "(pystr \<Rightarrow> 'r list) \<Rightarrow> ('r \<Rightarrow> 'd option) \<Rightarrow> ('d list \<Rightarrow> 's \<Rightarrow> 's) \<Rightarrow> pystr list \<Rightarrow> 's \<Rightarrow> nat \<Rightarrow>
   'd list \<times> 's \<times> nat"
where
  "checkpointed_run read process store downloaded_files s n =
     (case file_loop read process store downloaded_files ([], s, n) of
        (all_legal_docs, s1, n1) \<Rightarrow>
          (all_legal_docs,
           (if all_legal_docs \<noteq> [] \<and> length all_legal_docs mod 1000 > 0
            then store (last_n (length all_legal_docs mod 1000) all_legal_docs) s1
            else s1),
           n1))"

text \<open>
  The stores of the pipeline, with the list of the batches that were flushed. A flush is
  the pair of calls \<open>self.store_in_sqlite(batch)\<close>, \<open>self.store_in_qdrant(batch)\<close>.
\<close>

record stores =
  st_db :: sqlite_db
  st_collection :: "point list"
  st_flushes :: "legal_document list list"

definition flush :: "pipeline \<Rightarrow> legal_document list \<Rightarrow> stores \<Rightarrow> stores" where
  "flush self batch st =
     \<lparr>st_db = store_in_sqlite (st_db st) batch,
      st_collection = store_in_qdrant self (st_collection st) batch,
      st_flushes = st_flushes st @ [batch]\<rparr>"

text \<open>\<open>process_courtlistener_files\<close> is the run with the pipeline's own functions.\<close>

definition process_courtlistener_files ::
  "pipeline \<Rightarrow> (pystr \<Rightarrow> doc_data list) \<Rightarrow> pystr list \<Rightarrow> stores \<Rightarrow> nat \<Rightarrow>
   legal_document list \<times> stores \<times> nat"
where
  "process_courtlistener_files self read downloaded_files st n =
     checkpointed_run read (process_legal_document self) (flush self) downloaded_files st n"

text \<open>
  The sizes of the flushes of the batch loop, from the sizes of the batches and the
  number of documents collected so far, when every record gives a document.
\<close>

fun flush_sizes :: "nat list \<Rightarrow> nat \<Rightarrow> nat list" where
  "flush_sizes [] collected = []"
| "flush_sizes (b # bs) collected =
     (if collected + b \<ge> 1000 then 1000 # flush_sizes bs (collected + b)
      else flush_sizes bs (collected + b))"

section \<open>Facts about strings\<close>

lemmas sanitize_eval =
  sanitize_text_input_def lit_def replace_char_def allowed_def is_word_def is_space_def
  safe_punct_def strip_def

lemma dropWhile_self: "xs = [] \<or> \<not> P (hd xs) \<Longrightarrow> dropWhile P xs = xs"
  by (cases xs) auto

lemma dropWhile_head: "dropWhile P xs = [] \<or> \<not> P (hd (dropWhile P xs))"
  by (induction xs) auto

lemma is_space_32: "is_space 32"
  by (simp add: is_space_def)

lemma collapse_ws_set: "c \<in> set (collapse_ws s) \<Longrightarrow> c \<in> set s \<or> c = 32"
proof (induction s rule: collapse_ws.induct)
  case 1
  then show ?case by simp
next
  case (2 d ds)
  show ?case
  proof (cases "is_space d")
    case True
    with 2 have "c = 32 \<or> c \<in> set (collapse_ws (dropWhile is_space ds))" by simp
    with 2 True show ?thesis by (auto dest: set_dropWhileD)
  next
    case False
    with 2 show ?thesis by auto
  qed
qed

lemma collapse_ws_head:
  "s = [] \<or> \<not> is_space (hd s) \<Longrightarrow> collapse_ws s = [] \<or> \<not> is_space (hd (collapse_ws s))"
  by (cases s) auto

lemma spaced_collapse_ws: "spaced (collapse_ws s)"
proof (induction s rule: collapse_ws.induct)
  case 1
  then show ?case by simp
next
  case (2 c cs)
  show ?case
  proof (cases "is_space c")
    case True
    have "collapse_ws (dropWhile is_space cs) = []
          \<or> \<not> is_space (hd (collapse_ws (dropWhile is_space cs)))"
      by (rule collapse_ws_head) (rule dropWhile_head)
    with 2 True show ?thesis by (simp add: is_space_32)
  next
    case False
    with 2 show ?thesis by simp
  qed
qed

lemma spaced_fixpoint: "spaced t \<Longrightarrow> collapse_ws t = t"
proof (induction t)
  case Nil
  then show ?case by simp
next
  case (Cons c cs)
  show ?case
  proof (cases "is_space c")
    case True
    with Cons.prems have c: "c = 32" and h: "cs = [] \<or> \<not> is_space (hd cs)" and s: "spaced cs"
      by simp_all
    from h have "dropWhile is_space cs = cs" by (rule dropWhile_self)
    with Cons.IH s c True show ?thesis by simp
  next
    case False
    with Cons show ?thesis by simp
  qed
qed

lemma spaced_prefix: "spaced (xs @ ys) \<Longrightarrow> spaced xs"
  by (induction xs) (auto split: if_splits)

lemma spaced_dropWhile: "spaced t \<Longrightarrow> spaced (dropWhile P t)"
  by (induction t) (auto split: if_splits)

lemma rstrip_prefix: "s = rev (dropWhile P (rev s)) @ rev (takeWhile P (rev s))"
proof -
  have "rev (takeWhile P (rev s) @ dropWhile P (rev s)) = rev (rev s)"
    by (simp only: takeWhile_dropWhile_id)
  then show ?thesis by (simp only: rev_append rev_rev_ident)
qed

lemma spaced_strip: "spaced t \<Longrightarrow> spaced (strip t)"
proof -
  assume "spaced t"
  then have "spaced (rev (dropWhile is_space (rev t)) @ rev (takeWhile is_space (rev t)))"
    using rstrip_prefix [of t is_space] by simp
  then have "spaced (rev (dropWhile is_space (rev t)))" by (rule spaced_prefix)
  then show ?thesis unfolding strip_def by (rule spaced_dropWhile)
qed

lemma strip_set: "c \<in> set (strip s) \<Longrightarrow> c \<in> set s"
  unfolding strip_def by (auto dest!: set_dropWhileD)

lemma last_dropWhile: "dropWhile P xs \<noteq> [] \<Longrightarrow> last (dropWhile P xs) = last xs"
  by (induction xs) (auto split: if_splits)

lemma strip_last: "strip s = [] \<or> \<not> is_space (last (strip s))"
proof (cases "strip s = []")
  case True
  then show ?thesis by simp
next
  case False
  let ?q = "rev (dropWhile is_space (rev s))"
  from False have q: "?q \<noteq> []" unfolding strip_def by (metis dropWhile.simps(1))
  have "last (strip s) = last ?q" using False unfolding strip_def by (rule last_dropWhile)
  also have "\<dots> = hd (dropWhile is_space (rev s))" using q by (simp add: last_rev)
  finally show ?thesis using q dropWhile_head [of is_space "rev s"] by auto
qed

lemma strip_idem: "strip (strip s) = strip s"
proof -
  have "rev (strip s) = [] \<or> \<not> is_space (hd (rev (strip s)))"
    using strip_last [of s] by (auto simp: hd_rev)
  then have "dropWhile is_space (rev (strip s)) = rev (strip s)" by (rule dropWhile_self)
  then have "strip (strip s) = dropWhile is_space (strip s)" by (simp add: strip_def)
  also have "\<dots> = strip s" by (simp add: strip_def)
  finally show ?thesis .
qed

lemma replace_char_absent: "old \<notin> set s \<Longrightarrow> replace_char old new s = s"
  unfolding replace_char_def by (induction s) auto

lemma replace_char_removes: "old \<noteq> new \<Longrightarrow> old \<notin> set (replace_char old new s)"
  unfolding replace_char_def by auto

lemma allowed_32: "allowed u 32"
  by (simp add: allowed_def is_space_32)

lemma allowed_not_meta:
  "allowed u c \<Longrightarrow> c \<notin> {91, 93, 123, 125, 92, 124, 94, 36, 42, 43, 63}"
  by (auto simp: allowed_def is_word_def is_space_def safe_punct_def lit_def)

lemma sanitize_chars: "c \<in> set (sanitize_text_input u s) \<Longrightarrow> allowed u c"
proof -
  assume c: "c \<in> set (sanitize_text_input u s)"
  then have ne: "s \<noteq> []" by (auto simp: sanitize_text_input_def)
  from c ne obtain t where
    "c \<in> set (strip (collapse_ws (map (\<lambda>c. if allowed u c then c else 32) t)))"
    by (auto simp: sanitize_text_input_def Let_def)
  then have "c \<in> set (collapse_ws (map (\<lambda>c. if allowed u c then c else 32) t))"
    by (rule strip_set)
  then have "c \<in> set (map (\<lambda>c. if allowed u c then c else 32) t) \<or> c = 32"
    by (rule collapse_ws_set)
  then show ?thesis by (auto simp: allowed_32)
qed

lemma sanitize_shape: "\<exists>t. sanitize_text_input u s = strip (collapse_ws t)"
proof (cases "s = []")
  case True
  have "sanitize_text_input u s = strip (collapse_ws [])"
    using True by (simp add: sanitize_text_input_def strip_def)
  then show ?thesis by blast
next
  case False
  then show ?thesis by (auto simp: sanitize_text_input_def Let_def)
qed

lemma sanitize_fixed:
  assumes all: "\<forall>c \<in> set r. allowed u c" and sp: "spaced r" and st: "strip r = r"
  shows "sanitize_text_input u r = r"
proof (cases "r = []")
  case True
  then show ?thesis by (simp add: sanitize_text_input_def)
next
  case False
  have nm: "\<And>m. m \<in> {91, 93, 123, 125, 92, 124, 94, 36, 42, 43, 63} \<Longrightarrow> m \<notin> set r"
    using all allowed_not_meta by blast
  have m: "map (\<lambda>c. if allowed u c then c else 32) r = r"
    using all by (induction r) auto
  have "sanitize_text_input u r = strip (collapse_ws r)"
    using False by (simp add: sanitize_text_input_def Let_def replace_char_absent nm m)
  also have "\<dots> = r" using sp st by (simp add: spaced_fixpoint)
  finally show ?thesis .
qed

text \<open>
  Claim C9. For every input string and every Unicode alphanumeric table, the output of
  \<open>sanitize_text_input\<close> holds only code points of the allow-list (word characters,
  whitespace, the fixed punctuation), and sanitizing the output again returns it unchanged.
\<close>

theorem sanitize_text_input_allow_list_idempotent:
  "(\<forall>c \<in> set (sanitize_text_input u s). allowed u c) \<and>
   sanitize_text_input u (sanitize_text_input u s) = sanitize_text_input u s"
proof
  show a: "\<forall>c \<in> set (sanitize_text_input u s). allowed u c"
    using sanitize_chars by blast
  obtain t where t: "sanitize_text_input u s = strip (collapse_ws t)"
    using sanitize_shape by blast
  have sp: "spaced (sanitize_text_input u s)"
    unfolding t by (rule spaced_strip) (rule spaced_collapse_ws)
  have st: "strip (sanitize_text_input u s) = sanitize_text_input u s"
    unfolding t by (rule strip_idem)
  show "sanitize_text_input u (sanitize_text_input u s) = sanitize_text_input u s"
    using a sp st by (rule sanitize_fixed)
qed

theorem sanitize_text_input_witness:
  "sanitize_text_input (\<lambda>_. False) (lit ''Roe [v.] Wade^2 | x?'') = lit ''Roe (v.) Wade 2 - x'' \<and>
   list_all (allowed (\<lambda>_. False)) (lit ''Roe (v.) Wade 2 - x'') \<and>
   sanitize_text_input (\<lambda>_. False) (lit ''Roe (v.) Wade 2 - x'') = lit ''Roe (v.) Wade 2 - x''"
proof -
  have e: "sanitize_text_input (\<lambda>_. False) (lit ''Roe [v.] Wade^2 | x?'') = lit ''Roe (v.) Wade 2 - x''"
    by (simp add: sanitize_eval)
  show ?thesis
    using sanitize_text_input_allow_list_idempotent [of "\<lambda>_. False" "lit ''Roe [v.] Wade^2 | x?''"]
    unfolding e by (simp add: list_all_iff)
qed

section \<open>The chunker\<close>

lemma content_append: "content (xs @ ys) = content xs @ content ys"
  by (simp add: content_def)

lemma content_dropWhile: "content (dropWhile is_space s) = content s"
  by (induction s) (auto simp: content_def)

lemma content_rev: "content (rev s) = rev (content s)"
  by (simp add: content_def rev_filter)

lemma content_strip: "content (strip s) = content s"
  by (simp add: strip_def content_dropWhile content_rev)

lemma content_Nil: "content [] = []"
  by (simp add: content_def)

lemma content_Cons: "content (c # s) = (if is_space c then content s else c # content s)"
  by (simp add: content_def)

lemma is_space_10: "is_space 10"
  by (simp add: is_space_def)

lemma content_split_nn: "content (concat (split_nn cur t)) = content (cur @ t)"
proof (induction cur t rule: split_nn.induct)
  case (1 cur)
  show ?case by simp
next
  case (2 cur c)
  show ?case by simp
next
  case (3 cur c d cs)
  show ?case
  proof (cases "c = 10 \<and> d = 10")
    case True
    with 3 have "content (concat (split_nn [] cs)) = content cs" by simp
    with True show ?thesis
      by (simp add: content_append content_Cons is_space_10)
  next
    case False
    with 3 have ih: "content (concat (split_nn (cur @ [c]) (d # cs))) = content ((cur @ [c]) @ d # cs)"
      by simp
    from False have eq: "split_nn cur (c # d # cs) = split_nn (cur @ [c]) (d # cs)"
      by auto
    show ?thesis unfolding eq using ih by simp
  qed
qed

lemma content_sentence_loop:
  "sentence_loop m ss (chunks, cur) = (chunks', cur') \<Longrightarrow>
   content (concat chunks' @ cur') = content (concat chunks @ cur) @ content (concat ss)"
proof (induction ss arbitrary: chunks cur)
  case Nil
  then show ?case by (simp add: content_Nil)
next
  case (Cons s ss)
  show ?case
  proof (cases "int (length cur) + int (length s) > m")
    case over: True
    show ?thesis
    proof (cases "cur = []")
      case True
      with over Cons.prems have "sentence_loop m ss (chunks @ [s], cur) = (chunks', cur')"
        by simp
      from Cons.IH [OF this] True show ?thesis by (simp add: content_append)
    next
      case False
      with over Cons.prems have "sentence_loop m ss (chunks @ [strip cur], s) = (chunks', cur')"
        by simp
      from Cons.IH [OF this] show ?thesis by (simp add: content_append content_strip)
    qed
  next
    case False
    with Cons.prems have "sentence_loop m ss (chunks, cur @ [32] @ s) = (chunks', cur')"
      by simp
    from Cons.IH [OF this] show ?thesis
      by (simp add: content_append content_Cons content_Nil is_space_32)
  qed
qed

lemma content_paragraph_loop:
  assumes tok: "\<And>p. content (concat (st p)) = content p"
  shows "paragraph_loop st m ps (chunks, cur) = (chunks', cur') \<Longrightarrow>
   content (concat chunks' @ cur') = content (concat chunks @ cur) @ content (concat ps)"
proof (induction ps arbitrary: chunks cur)
  case Nil
  then show ?case by (simp add: content_Nil)
next
  case (Cons p ps)
  have cp: "content (strip p) = content p" by (rule content_strip)
  show ?case
  proof (cases "strip p = []")
    case True
    with Cons.prems have "paragraph_loop st m ps (chunks, cur) = (chunks', cur')" by simp
    from Cons.IH [OF this] cp True show ?thesis by (simp add: content_append content_Nil)
  next
    case ne: False
    show ?thesis
    proof (cases "int (length cur) + int (length (strip p)) > m")
      case over: True
      show ?thesis
      proof (cases "cur = []")
        case True
        obtain c1 u1 where sl: "sentence_loop m (st (strip p)) (chunks, cur) = (c1, u1)"
          by (cases "sentence_loop m (st (strip p)) (chunks, cur)")
        with ne over True Cons.prems have "paragraph_loop st m ps (c1, u1) = (chunks', cur')"
          by (simp add: Let_def)
        from Cons.IH [OF this] content_sentence_loop [OF sl] tok [of "strip p"] cp
        show ?thesis by (simp add: content_append)
      next
        case False
        with ne over Cons.prems
        have "paragraph_loop st m ps (chunks @ [strip cur], strip p) = (chunks', cur')"
          by (simp add: Let_def)
        from Cons.IH [OF this] cp show ?thesis by (simp add: content_append content_strip)
      qed
    next
      case False
      with ne Cons.prems
      have "paragraph_loop st m ps (chunks, cur @ [10, 10] @ strip p) = (chunks', cur')"
        by (simp add: Let_def)
      from Cons.IH [OF this] cp show ?thesis
        by (simp add: content_append content_Cons is_space_10)
    qed
  qed
qed

lemmas chunk_eval =
  chunk_legal_document_def split_paragraphs_def lit_def strip_def is_space_def Let_def

text \<open>
  Claim C3. For every text and every bound, the chunks of \<open>chunk_legal_document\<close>,
  concatenated in order, have exactly the non-whitespace content of the text, in the same
  order: nothing is lost, nothing is duplicated, nothing is reordered. The sentence
  tokenizer is a library; the theorem asks of it what the claim asks of the chunker, that
  the sentences of a paragraph carry the paragraph's non-whitespace content.
\<close>

theorem chunk_legal_document_preserves_content:
  assumes "\<forall>p. content (concat (sent_tokenize p)) = content p"
  shows "content (concat (chunk_legal_document sent_tokenize text max_chunk_size)) = content text"
proof -
  obtain chunks cur where
    pl: "paragraph_loop sent_tokenize max_chunk_size (split_paragraphs text) ([], []) = (chunks, cur)"
    by (cases "paragraph_loop sent_tokenize max_chunk_size (split_paragraphs text) ([], [])")
  from assms have tok: "\<And>p. content (concat (sent_tokenize p)) = content p" by simp
  have "content (concat chunks @ cur) = content (concat (split_paragraphs text))"
    using content_paragraph_loop [OF tok pl] by (simp add: content_Nil)
  also have "\<dots> = content text"
    by (simp add: split_paragraphs_def content_split_nn)
  finally have c: "content (concat chunks @ cur) = content text" .
  show ?thesis
  proof (cases "cur = []")
    case True
    with pl c show ?thesis by (simp add: chunk_legal_document_def)
  next
    case False
    with pl c show ?thesis
      by (simp add: chunk_legal_document_def content_append content_strip)
  qed
qed

theorem chunk_legal_document_preserves_content_witness:
  "content (concat (chunk_legal_document (\<lambda>p. [p]) (lit ''Ab cd.\<newline>\<newline>Ef gh.\<newline>\<newline>Ij.'') 10))
   = lit ''Abcd.Efgh.Ij.''"
proof -
  have "content (concat (chunk_legal_document (\<lambda>p. [p]) (lit ''Ab cd.\<newline>\<newline>Ef gh.\<newline>\<newline>Ij.'') 10))
        = content (lit ''Ab cd.\<newline>\<newline>Ef gh.\<newline>\<newline>Ij.'')"
    by (rule chunk_legal_document_preserves_content) simp
  then show ?thesis by (simp add: content_def lit_def is_space_def)
qed

text \<open>
  Claim C1. Two inputs on which a chunk is longer than \<open>max_chunk_size\<close> without being
  a single sentence. In the first the second paragraph (three sentences, 17 code points)
  arrives while the buffer holds the first paragraph: the buffer is flushed and the
  paragraph becomes the new buffer without any test of its own length, so it is emitted
  whole and the sentence tokenizer is never called. In the second the test
  \<open>len(current_chunk) + len(paragraph) > max_chunk_size\<close> leaves out the two line feeds
  that join the paragraphs: 6 + 4 passes the test and the chunk has 12 code points.
  Both hold for every sentence tokenizer.
\<close>

theorem chunk_legal_document_oversized_chunks:
  "chunk_legal_document sent_tokenize (lit ''Aa.\<newline>\<newline>Bbbb. Cccc. Dddd.'') 10
     = [lit ''Aa.'', lit ''Bbbb. Cccc. Dddd.'']
   \<and> length (lit ''Bbbb. Cccc. Dddd.'') = 17
   \<and> chunk_legal_document sent_tokenize (lit ''Aaaaaaa.\<newline>\<newline>Bbbbb.\<newline>\<newline>Ccc.'') 10
     = [lit ''Aaaaaaa.'', lit ''Bbbbb.\<newline>\<newline>Ccc.'']
   \<and> length (lit ''Bbbbb.\<newline>\<newline>Ccc.'') = 12"
  by (simp add: chunk_eval)

section \<open>The classifier\<close>

lemma lower_Nil: "lower L [] = []"
  by (simp add: lower_def)

lemma not_sublist_Nil: "sublist (lit (c # s)) (lower L text) \<Longrightarrow> text \<noteq> []"
  by (auto simp: lower_Nil lit_def)

lemma extract_legal_metadata_court_level:
  "text \<noteq> [] \<Longrightarrow>
   md_court_level (extract_legal_metadata L text case_name) = extract_court_level (lower L text)"
  by (simp add: extract_legal_metadata_def Let_def)

lemma extract_legal_metadata_authority_weight:
  "text \<noteq> [] \<Longrightarrow>
   md_authority_weight (extract_legal_metadata L text case_name)
   = court_hierarchy_get (extract_court_level (lower L text))"
  by (simp add: extract_legal_metadata_def Let_def)

lemmas classify_eval =
  extract_court_level_def any_in_def lower_def lit_def
  court_hierarchy_get_def court_hierarchy_def sublist_Cons_right

text \<open>
  Claim C6, at a counterexample: the lower-case text \<open>supreme judicial court of
  massachusetts\<close> contains the word \<open>supreme\<close>, and \<open>extract_legal_metadata\<close> classifies
  it as \<open>unknown\<close> with weight 0.1, because its first rule looks for \<open>supreme court\<close> or
  \<open>scotus\<close>.
\<close>

theorem extract_legal_metadata_supreme_counterexample:
  "sublist (lit ''supreme'') (lit ''supreme judicial court of massachusetts'')
   \<and> md_court_level
        (extract_legal_metadata sample_library (lit ''supreme judicial court of massachusetts'') [])
      = lit ''unknown''
   \<and> md_authority_weight
        (extract_legal_metadata sample_library (lit ''supreme judicial court of massachusetts'') [])
      = 1 / 10"
proof -
  let ?t = "lit ''supreme judicial court of massachusetts''"
  have ne: "?t \<noteq> []" by (simp add: lit_def)
  have lv: "extract_court_level (lower sample_library ?t) = lit ''unknown''"
    by (simp add: classify_eval)
  have w: "court_hierarchy_get (lit ''unknown'') = 1 / 10"
    by (simp add: classify_eval)
  have s: "sublist (lit ''supreme'') ?t"
    by (simp add: lit_def sublist_Cons_right)
  show ?thesis
    using s lv w
    by (simp only: extract_legal_metadata_court_level [OF ne]
          extract_legal_metadata_authority_weight [OF ne] simp_thms)
qed

text \<open>
  Claim C6, amended. For every text whose lower-case form contains \<open>supreme court\<close> or
  \<open>scotus\<close>, \<open>extract_legal_metadata\<close> returns court level \<open>supreme\<close> and authority
  weight 1.0; and for every court name whose lower-case form contains \<open>supreme\<close>,
  \<open>determine_court_level\<close> returns \<open>supreme\<close> and \<open>calculate_court_authority_weight\<close>
  returns 1.0.
\<close>

theorem supreme_classification:
  "(sublist (lit ''supreme court'') (lower L text) \<or> sublist (lit ''scotus'') (lower L text) \<longrightarrow>
      md_court_level (extract_legal_metadata L text case_name) = lit ''supreme'' \<and>
      md_authority_weight (extract_legal_metadata L text case_name) = 1)
   \<and> (sublist (lit ''supreme'') (lower L court_name) \<longrightarrow>
      determine_court_level L court_name = lit ''supreme'' \<and>
      calculate_court_authority_weight L court_name = 1)"
proof (intro conjI impI)
  assume h: "sublist (lit ''supreme court'') (lower L text) \<or> sublist (lit ''scotus'') (lower L text)"
  then have ne: "text \<noteq> []" using not_sublist_Nil by blast
  from h have lv: "extract_court_level (lower L text) = lit ''supreme''"
    by (auto simp: extract_court_level_def any_in_def)
  from ne lv show "md_court_level (extract_legal_metadata L text case_name) = lit ''supreme''"
    by (simp add: extract_legal_metadata_court_level)
  from ne lv show "md_authority_weight (extract_legal_metadata L text case_name) = 1"
    by (simp add: extract_legal_metadata_authority_weight court_hierarchy_get_def
          court_hierarchy_def)
next
  assume h: "sublist (lit ''supreme'') (lower L court_name)"
  then show lv: "determine_court_level L court_name = lit ''supreme''"
    by (simp add: determine_court_level_def Let_def)
  then show "calculate_court_authority_weight L court_name = 1"
    by (simp add: calculate_court_authority_weight_def Let_def)
qed

theorem supreme_classification_witness:
  "md_court_level (extract_legal_metadata sample_library (lit ''Supreme Court of Ohio'') []) = lit ''supreme''
   \<and> md_authority_weight (extract_legal_metadata sample_library (lit ''Supreme Court of Ohio'') []) = 1
   \<and> determine_court_level sample_library (lit ''Supreme Judicial Court'') = lit ''supreme''
   \<and> calculate_court_authority_weight sample_library (lit ''Supreme Judicial Court'') = 1"
proof -
  have a: "sublist (lit ''supreme court'') (lower sample_library (lit ''Supreme Court of Ohio''))"
    by (simp add: lower_def lit_def sublist_Cons_right)
  have b: "sublist (lit ''supreme'') (lower sample_library (lit ''Supreme Judicial Court''))"
    by (simp add: lower_def lit_def sublist_Cons_right)
  show ?thesis
    using a b
      supreme_classification [of sample_library "lit ''Supreme Court of Ohio''"
        "[]" "lit ''Supreme Judicial Court''"]
    by blast
qed

section \<open>The context budgeter\<close>

lemma sublist_trans: "sublist xs ys \<Longrightarrow> sublist ys zs \<Longrightarrow> sublist xs zs"
proof -
  assume "sublist xs ys" and "sublist ys zs"
  then obtain p s p' s' where "ys = p @ xs @ s" and "zs = p' @ ys @ s'"
    unfolding sublist_def by blast
  then have "zs = (p' @ p) @ xs @ (s @ s')" by simp
  then show ?thesis unfolding sublist_def by blast
qed

lemma sublist_pair_append:
  "sublist [a, b] (ys @ zs) \<Longrightarrow>
   sublist [a, b] ys \<or> sublist [a, b] zs \<or> (ys \<noteq> [] \<and> zs \<noteq> [] \<and> last ys = a \<and> hd zs = b)"
proof (induction ys)
  case Nil
  then show ?case by simp
next
  case (Cons y ys)
  from Cons.prems have "prefix [a, b] (y # ys @ zs) \<or> sublist [a, b] (ys @ zs)"
    by (simp add: sublist_Cons_right)
  then show ?case
  proof
    assume p: "prefix [a, b] (y # ys @ zs)"
    then have ay: "a = y" and pb: "prefix [b] (ys @ zs)" by simp_all
    show ?thesis
    proof (cases ys)
      case Nil
      with pb have "zs \<noteq> [] \<and> hd zs = b" by (cases zs) simp_all
      with Nil ay show ?thesis by simp
    next
      case (Cons y2 ys2)
      with pb have "b = y2" by simp
      with Cons ay have "prefix [a, b] (y # ys)" by simp
      then have "sublist [a, b] (y # ys)" by (rule prefix_imp_sublist)
      then show ?thesis by simp
    qed
  next
    assume "sublist [a, b] (ys @ zs)"
    from Cons.IH [OF this] show ?thesis
    proof (elim disjE)
      assume "sublist [a, b] ys"
      then have "sublist [a, b] (y # ys)" by (simp add: sublist_Cons_right)
      then show ?thesis by simp
    next
      assume "sublist [a, b] zs"
      then show ?thesis by simp
    next
      assume "ys \<noteq> [] \<and> zs \<noteq> [] \<and> last ys = a \<and> hd zs = b"
      then show ?thesis by simp
    qed
  qed
qed

lemma sublist_pair_replicate: "sublist [a, b] (replicate n c) \<Longrightarrow> a = c \<and> b = c"
proof -
  assume "sublist [a, b] (replicate n c)"
  then have "set [a, b] \<subseteq> set (replicate n c)" by (rule set_mono_sublist)
  then show ?thesis by (cases "n = 0") simp_all
qed

lemma optimize_sample:
  "optimize_for_deepseek_r1 (Some char_tokenizer) (replicate 32001 97)
   = replicate 10666 97 @ truncation_marker @ replicate 10666 97"
  by (simp add: optimize_for_deepseek_r1_def char_tokenizer_def Let_def)

text \<open>
  Claim C8, at a counterexample: a text of 32001 tokens (the letter \<open>a\<close> 32001 times,
  under the tokenizer with one token per code point) is over the budget, and the result
  does not contain the literal \<open>...CONTENT TRUNCATED...\<close>: the marker of the source is
  another literal.
\<close>

theorem optimize_for_deepseek_r1_marker_counterexample:
  "length (tok_encode char_tokenizer (replicate 32001 97)) > 32000
   \<and> \<not> sublist (lit ''...CONTENT TRUNCATED...'')
         (optimize_for_deepseek_r1 (Some char_tokenizer) (replicate 32001 97))"
proof
  show "length (tok_encode char_tokenizer (replicate 32001 97)) > 32000"
    by (simp add: char_tokenizer_def)
  show "\<not> sublist (lit ''...CONTENT TRUNCATED...'')
         (optimize_for_deepseek_r1 (Some char_tokenizer) (replicate 32001 97))"
  proof
    assume a: "sublist (lit ''...CONTENT TRUNCATED...'')
         (optimize_for_deepseek_r1 (Some char_tokenizer) (replicate 32001 97))"
    have "sublist [46, 67] (lit ''...CONTENT TRUNCATED...'')"
      by (simp add: lit_def sublist_Cons_right)
    from sublist_trans [OF this a]
    have s1: "sublist [46, 67] (replicate 10666 97 @ (truncation_marker @ replicate 10666 97))"
      by (simp only: optimize_sample)
    have r: "\<not> sublist [46, 67] (replicate 10666 (97::nat))"
      using sublist_pair_replicate [of 46 67 10666 "97::nat"] by auto
    have m: "\<not> sublist [46, 67] truncation_marker"
      by (simp add: truncation_marker_def lit_def sublist_Cons_right)
    have l: "last (replicate 10666 (97::nat)) \<noteq> 46"
      by simp
    have h: "hd (replicate 10666 (97::nat)) \<noteq> 67"
      by simp
    from sublist_pair_append [OF s1] r l
    have s2: "sublist [46, 67] (truncation_marker @ replicate 10666 97)"
      by blast
    from sublist_pair_append [OF s2] r m h show False
      by blast
  qed
qed

text \<open>
  Claim C8, amended. Without a tokenizer the text is returned unchanged; with at most
  32000 tokens it is returned unchanged; otherwise the first 10666 and the last 10666
  tokens (32000 // 3 each) are kept and the middle is dropped: the result is the decoding
  of the kept tokens with the literal
  \<open>\n\n[... CONTENT TRUNCATED FOR DEEPSEEK R1 OPTIMIZATION ...]\n\n\<close> inserted at the
  length of the decoded head. Where decoding the kept tokens is the decoded head followed
  by the decoded tail, that is the decoded head, the literal, the decoded tail.
\<close>

theorem optimize_for_deepseek_r1_budget:
  "optimize_for_deepseek_r1 None text = text
   \<and> (length (tok_encode tk text) \<le> 32000 \<longrightarrow> optimize_for_deepseek_r1 (Some tk) text = text)
   \<and> (length (tok_encode tk text) > 32000 \<longrightarrow>
        (let tokens = tok_encode tk text;
             start_tokens = take 10666 tokens;
             end_tokens = drop (length tokens - 10666) tokens;
             kept_text = tok_decode tk (start_tokens @ end_tokens);
             k = length (tok_decode tk start_tokens)
         in length start_tokens = 10666 \<and> length end_tokens = 10666
            \<and> optimize_for_deepseek_r1 (Some tk) text
                = take k kept_text @ truncation_marker @ drop k kept_text
            \<and> take k kept_text @ drop k kept_text = kept_text
            \<and> sublist truncation_marker (optimize_for_deepseek_r1 (Some tk) text)
            \<and> (kept_text = tok_decode tk start_tokens @ tok_decode tk end_tokens \<longrightarrow>
                 optimize_for_deepseek_r1 (Some tk) text
                   = tok_decode tk start_tokens @ truncation_marker @ tok_decode tk end_tokens)))"
proof (intro conjI impI)
  show "optimize_for_deepseek_r1 None text = text"
    by (simp add: optimize_for_deepseek_r1_def)
  show "optimize_for_deepseek_r1 (Some tk) text = text" if "length (tok_encode tk text) \<le> 32000"
    using that by (simp add: optimize_for_deepseek_r1_def Let_def)
  assume over: "length (tok_encode tk text) > 32000"
  define tokens where "tokens = tok_encode tk text"
  define s where "s = take 10666 tokens"
  define e where "e = drop (length tokens - 10666) tokens"
  define d where "d = tok_decode tk (s @ e)"
  define k where "k = length (tok_decode tk s)"
  have r: "optimize_for_deepseek_r1 (Some tk) text = take k d @ truncation_marker @ drop k d"
    using over by (simp add: optimize_for_deepseek_r1_def Let_def tokens_def s_def e_def d_def k_def)
  have ls: "length s = 10666" using over by (simp add: s_def tokens_def)
  have le: "length e = 10666" using over by (simp add: e_def tokens_def)
  have td: "take k d @ drop k d = d" by simp
  have m: "sublist truncation_marker (optimize_for_deepseek_r1 (Some tk) text)"
    unfolding r by (rule sublist_appendI)
  have h: "optimize_for_deepseek_r1 (Some tk) text
             = tok_decode tk s @ truncation_marker @ tok_decode tk e"
    if "d = tok_decode tk s @ tok_decode tk e"
    unfolding r using that by (simp add: k_def)
  from ls le r td m h
  show "let tokens = tok_encode tk text;
             start_tokens = take 10666 tokens;
             end_tokens = drop (length tokens - 10666) tokens;
             kept_text = tok_decode tk (start_tokens @ end_tokens);
             k = length (tok_decode tk start_tokens)
         in length start_tokens = 10666 \<and> length end_tokens = 10666
            \<and> optimize_for_deepseek_r1 (Some tk) text
                = take k kept_text @ truncation_marker @ drop k kept_text
            \<and> take k kept_text @ drop k kept_text = kept_text
            \<and> sublist truncation_marker (optimize_for_deepseek_r1 (Some tk) text)
            \<and> (kept_text = tok_decode tk start_tokens @ tok_decode tk end_tokens \<longrightarrow>
                 optimize_for_deepseek_r1 (Some tk) text
                   = tok_decode tk start_tokens @ truncation_marker @ tok_decode tk end_tokens)"
    unfolding Let_def d_def k_def s_def e_def tokens_def by blast
qed

theorem optimize_for_deepseek_r1_budget_witness:
  "optimize_for_deepseek_r1 None (lit ''Held: affirmed.'') = lit ''Held: affirmed.''
   \<and> optimize_for_deepseek_r1 (Some char_tokenizer) (lit ''Held: affirmed.'') = lit ''Held: affirmed.''
   \<and> sublist truncation_marker (optimize_for_deepseek_r1 (Some char_tokenizer) (replicate 32001 97))
   \<and> optimize_for_deepseek_r1 (Some char_tokenizer) (replicate 32001 97)
      = replicate 10666 97 @ truncation_marker @ replicate 10666 97"
proof -
  have te: "tok_encode char_tokenizer s = s" for s
    by (simp add: char_tokenizer_def)
  have td: "tok_decode char_tokenizer ts = ts" for ts
    by (simp add: char_tokenizer_def)
  have a: "length (lit ''Held: affirmed.'') \<le> 32000"
    by (simp add: lit_def)
  from a optimize_for_deepseek_r1_budget [of "lit ''Held: affirmed.''" char_tokenizer]
  have 1: "optimize_for_deepseek_r1 None (lit ''Held: affirmed.'') = lit ''Held: affirmed.''"
    and 2: "optimize_for_deepseek_r1 (Some char_tokenizer) (lit ''Held: affirmed.'') = lit ''Held: affirmed.''"
    by (simp_all only: te)
  from optimize_for_deepseek_r1_budget [of "replicate 32001 97" char_tokenizer]
  have 3: "sublist truncation_marker (optimize_for_deepseek_r1 (Some char_tokenizer) (replicate 32001 97))"
    and 4: "optimize_for_deepseek_r1 (Some char_tokenizer) (replicate 32001 97)
      = replicate 10666 97 @ truncation_marker @ replicate 10666 97"
    by (simp_all add: te td Let_def)
  from 1 2 3 4 show ?thesis by blast
qed

section \<open>Per-document processing\<close>

lemma extract_court_level_cases:
  "extract_court_level t \<in>
     {lit ''supreme'', lit ''appellate'', lit ''district'', lit ''administrative'', lit ''unknown''}"
  by (simp add: extract_court_level_def)

lemma court_hierarchy_get_values:
  "court_hierarchy_get (lit ''supreme'') = 1"
  "court_hierarchy_get (lit ''appellate'') = 8 / 10"
  "court_hierarchy_get (lit ''district'') = 6 / 10"
  "court_hierarchy_get (lit ''administrative'') = 4 / 10"
  "court_hierarchy_get (lit ''unknown'') = 1 / 10"
  by (simp_all add: court_hierarchy_get_def court_hierarchy_def lit_def)

lemma court_hierarchy_get_not_half: "court_hierarchy_get (extract_court_level t) \<noteq> 1 / 2"
proof -
  from extract_court_level_cases [of t]
  consider "extract_court_level t = lit ''supreme''" | "extract_court_level t = lit ''appellate''"
    | "extract_court_level t = lit ''district''" | "extract_court_level t = lit ''administrative''"
    | "extract_court_level t = lit ''unknown''"
    by blast
  then show ?thesis
    by cases (simp_all add: court_hierarchy_get_values)
qed

lemma extract_legal_metadata_not_half:
  "md_authority_weight (extract_legal_metadata L text cn) \<noteq> 1 / 2"
proof (cases "text = []")
  case True
  then show ?thesis by (simp add: extract_legal_metadata_def default_metadata_def)
next
  case False
  then show ?thesis
    by (simp only: extract_legal_metadata_authority_weight court_hierarchy_get_not_half
          not_False_eq_True)
qed

lemma clean_text_raises: "text \<noteq> [] \<Longrightarrow> clean_text L text = Inl ReError"
  by (simp add: clean_text_def re_sub_apostrophe_def Let_def)

lemma process_legal_document_None: "process_legal_document self d = None"
  by (simp add: process_legal_document_def Let_def clean_text_raises)

lemma process_cleaned_document_weight:
  "ld_authority_weight (process_cleaned_document self d cn cit crt ft pt)
   = md_authority_weight (extract_legal_metadata (self_lib self) pt cn)"
  by (simp add: process_cleaned_document_def Let_def)

lemma process_cleaned_document_id:
  "ld_id (process_cleaned_document self d cn cit crt ft pt)
   = hashlib_md5 (self_lib self) (cn @ lit ''_'' @ cit)"
  by (simp add: process_cleaned_document_def Let_def)

text \<open>
  Claim C7. For every citation row, \<open>process_legal_document\<close> returns \<open>None\<close> on the
  record that \<open>convert_citation_row_to_document\<close> builds: \<open>clean_text\<close> raises on its
  text and the outer \<open>try\<close> catches the exception, so no document is produced. And the
  lines after \<open>clean_text\<close> never read the weight 0.5 that the converter wrote: whatever
  the cleaned text, the document they build has a weight other than 0.5.
\<close>

theorem citation_row_document_never_carries_half:
  "process_legal_document self (convert_citation_row_to_document L row) = None
   \<and> ld_authority_weight
        (process_cleaned_document self (convert_citation_row_to_document L row) cn cit crt ft pt)
      \<noteq> 1 / 2"
  by (simp only: process_legal_document_None process_cleaned_document_weight
        extract_legal_metadata_not_half not_False_eq_True simp_thms)

section \<open>The stores\<close>

lemma store_document_embeddings:
  "r \<in> set (db_embeddings (store_document db doc)) \<Longrightarrow>
   r \<in> set (db_embeddings db) \<or> er_chunk_text r = lit ''Chunk '' @ str_nat (er_chunk_id r)"
  by (auto simp: store_document_def Let_def split: option.splits if_splits)

lemma store_in_sqlite_embeddings:
  "r \<in> set (db_embeddings (store_in_sqlite db legal_docs)) \<Longrightarrow>
   r \<in> set (db_embeddings db) \<or> er_chunk_text r = lit ''Chunk '' @ str_nat (er_chunk_id r)"
proof (induction legal_docs arbitrary: r rule: rev_induct)
  case Nil
  then show ?case by (simp add: store_in_sqlite_def)
next
  case (snoc doc legal_docs)
  from snoc.prems
  have "r \<in> set (db_embeddings (store_document (store_in_sqlite db legal_docs) doc))"
    by (simp add: store_in_sqlite_def)
  from store_document_embeddings [OF this] snoc.IH show ?case by blast
qed

lemma store_document_last:
  "last (db_documents (store_document db doc)) = document_row_of doc"
  by (simp add: store_document_def Let_def insert_or_replace_document_def split: option.splits)

lemma store_in_sqlite_last:
  "last (db_documents (store_in_sqlite db (legal_docs @ [doc]))) = document_row_of doc"
  by (simp add: store_in_sqlite_def store_document_last)

lemma store_document_ids:
  "distinct (map row_id (db_documents db)) \<Longrightarrow>
   distinct (map row_id (db_documents (store_document db doc)))"
  by (auto simp: store_document_def Let_def insert_or_replace_document_def distinct_map_filter
        split: option.splits)

lemma store_in_sqlite_distinct_ids:
  "distinct (map row_id (db_documents db)) \<Longrightarrow>
   distinct (map row_id (db_documents (store_in_sqlite db legal_docs)))"
proof (induction legal_docs rule: rev_induct)
  case Nil
  then show ?case by (simp add: store_in_sqlite_def)
next
  case (snoc doc legal_docs)
  then have "distinct (map row_id (db_documents (store_in_sqlite db legal_docs)))" by simp
  from store_document_ids [OF this] show ?case by (simp add: store_in_sqlite_def)
qed

lemma store_document_replaces:
  "filter (\<lambda>r. row_id r = ld_id doc) (db_documents (store_document db doc)) = [document_row_of doc]"
proof -
  have "filter (\<lambda>r. row_id r = ld_id doc) (filter (\<lambda>r. row_id r \<noteq> ld_id doc) tbl) = []" for tbl
    by (induction tbl) auto
  then show ?thesis
    by (simp add: store_document_def Let_def insert_or_replace_document_def document_row_of_def
          split: option.splits)
qed

lemma store_in_sqlite_replaces:
  "ld_id d1 = ld_id d2 \<Longrightarrow>
   filter (\<lambda>r. row_id r = ld_id d2) (db_documents (store_in_sqlite db [d1, d2]))
   = [document_row_of d2]"
  by (simp add: store_in_sqlite_def store_document_replaces)

lemmas store_eval =
  store_in_sqlite_def store_document_def insert_or_replace_document_def document_row_of_def
  sample_document_def empty_db_def Let_def lit_def str_nat.simps

text \<open>
  Claim C10, at a counterexample: a document whose text is one chunk, stored in the empty
  cache. The row of \<open>embeddings\<close> holds the placeholder, and the row of \<open>documents\<close> in
  the same cache holds the text of the chunk in its column \<open>plain_text\<close>: the cache does
  retain the text content of the chunk.
\<close>

theorem store_in_sqlite_retains_text_counterexample:
  "chunk_legal_document (nltk_sent_tokenize sample_library) (ld_plain_text sample_document) 1000
     = [lit ''Held: affirmed.'']
   \<and> map er_chunk_text (db_embeddings (store_in_sqlite empty_db [sample_document]))
     = [lit ''Chunk 0'']
   \<and> map row_plain_text (db_documents (store_in_sqlite empty_db [sample_document]))
     = [lit ''Held: affirmed.'']"
proof (intro conjI)
  show "chunk_legal_document (nltk_sent_tokenize sample_library) (ld_plain_text sample_document) 1000
     = [lit ''Held: affirmed.'']"
    by (simp add: sample_document_def chunk_eval)
  show "map er_chunk_text (db_embeddings (store_in_sqlite empty_db [sample_document]))
     = [lit ''Chunk 0'']"
    by (simp add: store_eval)
  show "map row_plain_text (db_documents (store_in_sqlite empty_db [sample_document]))
     = [lit ''Held: affirmed.'']"
    by (simp add: store_eval)
qed

text \<open>
  Claim C10, amended. Every row that \<open>store_in_sqlite\<close> adds to \<open>embeddings\<close> holds in
  \<open>chunk_text\<close> the placeholder \<open>Chunk\<close>, a space and the chunk index, a function of the
  index alone; the text of a document is kept by the same call in the columns
  \<open>full_text\<close> and \<open>plain_text\<close> of its row of \<open>documents\<close>.
\<close>

theorem store_in_sqlite_chunk_text_placeholder:
  "(\<forall>r \<in> set (db_embeddings (store_in_sqlite db legal_docs)).
      r \<in> set (db_embeddings db) \<or> er_chunk_text r = lit ''Chunk '' @ str_nat (er_chunk_id r))
   \<and> row_full_text (last (db_documents (store_in_sqlite db (legal_docs @ [doc])))) = ld_full_text doc
   \<and> row_plain_text (last (db_documents (store_in_sqlite db (legal_docs @ [doc])))) = ld_plain_text doc"
  using store_in_sqlite_embeddings
  by (auto simp: store_in_sqlite_last document_row_of_def)

theorem store_in_sqlite_chunk_text_placeholder_witness:
  "list_all (\<lambda>r. er_chunk_text r = lit ''Chunk '' @ str_nat (er_chunk_id r))
     (db_embeddings (store_in_sqlite empty_db [sample_document]))
   \<and> db_embeddings (store_in_sqlite empty_db [sample_document]) \<noteq> []
   \<and> row_plain_text (last (db_documents (store_in_sqlite empty_db ([] @ [sample_document]))))
     = lit ''Held: affirmed.''"
proof -
  have e: "db_embeddings empty_db = []" by (simp add: empty_db_def)
  have n: "db_embeddings (store_in_sqlite empty_db [sample_document]) \<noteq> []"
    by (simp add: store_eval)
  have p: "ld_plain_text sample_document = lit ''Held: affirmed.''"
    by (simp add: sample_document_def)
  from store_in_sqlite_chunk_text_placeholder [of empty_db "[sample_document]" sample_document]
  have "list_all (\<lambda>r. er_chunk_text r = lit ''Chunk '' @ str_nat (er_chunk_id r))
     (db_embeddings (store_in_sqlite empty_db [sample_document]))"
    unfolding e by (simp add: list_all_iff)
  moreover
  from store_in_sqlite_chunk_text_placeholder [of empty_db "[]" sample_document]
  have "row_plain_text (last (db_documents (store_in_sqlite empty_db ([] @ [sample_document]))))
     = lit ''Held: affirmed.''"
    unfolding p by blast
  ultimately show ?thesis using n by blast
qed

text \<open>
  Claim C4. Whatever the two records, \<open>process_legal_document\<close> returns \<open>None\<close> on both
  (\<open>clean_text\<close> raises on every text), so no document id is assigned and storing what
  was produced leaves the cache as it was: the later version of the record is not in
  it. The lemmas above and \<open>process_cleaned_document_id\<close> give what the rest of the
  code does: the id is the MD5 digest of the sanitized pair, and \<open>store_in_sqlite\<close>
  replaces the row of an id and keeps the ids of \<open>documents\<close> distinct.
\<close>

theorem reprocessed_records_are_not_stored:
  "List.map_filter (process_legal_document self) [d1, d2] = []
   \<and> store_in_sqlite db (List.map_filter (process_legal_document self) [d1, d2]) = db"
  by (simp add: List.map_filter_def process_legal_document_None store_in_sqlite_def)

lemma upsert_point_fresh:
  "pt_id p \<notin> set (map pt_id collection) \<Longrightarrow> upsert_point collection p = collection @ [p]"
proof -
  assume "pt_id p \<notin> set (map pt_id collection)"
  then have "filter (\<lambda>q. pt_id q \<noteq> pt_id p) collection = collection"
    by (induction collection) auto
  then show ?thesis by (simp add: upsert_point_def)
qed

lemma qdrant_upsert_fresh:
  "distinct (map pt_id (collection @ points)) \<Longrightarrow> qdrant_upsert collection points = collection @ points"
proof (induction points arbitrary: collection)
  case Nil
  then show ?case by (simp add: qdrant_upsert_def)
next
  case (Cons p points)
  from Cons.prems have f: "pt_id p \<notin> set (map pt_id collection)" by auto
  from Cons.prems have d: "distinct (map pt_id ((collection @ [p]) @ points))" by auto
  have "qdrant_upsert collection (p # points) = qdrant_upsert (upsert_point collection p) points"
    by (simp add: qdrant_upsert_def)
  also have "\<dots> = qdrant_upsert (collection @ [p]) points"
    by (simp only: upsert_point_fresh [OF f])
  also have "\<dots> = (collection @ [p]) @ points" by (rule Cons.IH [OF d])
  finally show ?case by simp
qed

text \<open>
  Claim C5. The identifier of a point is the interpreter's \<open>hash\<close> of a string, and
  that hash is keyed by a secret drawn at the start of each interpreter process. When the
  same document is indexed by two processes whose hashes give different identifiers, the
  second run overwrites nothing: the collection holds the points of both runs.
\<close>

theorem store_in_qdrant_reindex_duplicates:
  assumes "self_qdrant_client self1" and "self_qdrant_client self2"
    and "distinct (map pt_id (points_of (self_lib self1) doc @ points_of (self_lib self2) doc))"
  shows "store_in_qdrant self2 (store_in_qdrant self1 [] [doc]) [doc]
         = points_of (self_lib self1) doc @ points_of (self_lib self2) doc"
proof -
  from assms(3) have d1: "distinct (map pt_id ([] @ points_of (self_lib self1) doc))" by simp
  have r1: "store_in_qdrant self1 [] [doc] = points_of (self_lib self1) doc"
    using assms(1) qdrant_upsert_fresh [OF d1] by (simp add: store_in_qdrant_def Let_def)
  have "store_in_qdrant self2 (points_of (self_lib self1) doc) [doc]
        = points_of (self_lib self1) doc @ points_of (self_lib self2) doc"
    using assms(2) qdrant_upsert_fresh [OF assms(3)] by (simp add: store_in_qdrant_def Let_def)
  with r1 show ?thesis by simp
qed

lemmas qdrant_eval =
  points_of_def document_point_def chunk_point_def sample_document_def sample_pipeline_def
  sample_library_def second_process_def lit_def str_nat.simps

theorem store_in_qdrant_reindex_duplicates_witness:
  "map pt_id (store_in_qdrant second_process (store_in_qdrant sample_pipeline [] [sample_document])
                [sample_document])
   = [5, 13, 105, 113]"
proof -
  have a: "self_qdrant_client sample_pipeline" by (simp add: sample_pipeline_def)
  have b: "self_qdrant_client second_process" by (simp add: second_process_def sample_pipeline_def)
  have i1: "map pt_id (points_of (self_lib sample_pipeline) sample_document) = [5, 13]"
    by (simp add: qdrant_eval)
  have i2: "map pt_id (points_of (self_lib second_process) sample_document) = [105, 113]"
    by (simp add: qdrant_eval)
  have c: "distinct (map pt_id (points_of (self_lib sample_pipeline) sample_document
                                @ points_of (self_lib second_process) sample_document))"
    by (simp add: i1 i2)
  show ?thesis
    by (simp add: store_in_qdrant_reindex_duplicates [OF a b c] i1 i2)
qed

section \<open>Checkpointing\<close>

lemma map_filter_all_None: "(\<And>r. process r = None) \<Longrightarrow> List.map_filter process batch = []"
  by (simp add: List.map_filter_def)

lemma batch_loop_no_documents:
  "(\<And>r. process r = None) \<Longrightarrow>
   batch_loop process store batches ([], s, n) = ([], s, n)"
  by (induction batches) (simp_all add: map_filter_all_None Let_def)

lemma file_loop_no_documents:
  "(\<And>r. process r = None) \<Longrightarrow>
   file_loop read process store files ([], s, n) = ([], s, n)"
  by (induction files) (simp_all add: batch_loop_no_documents)

lemma length_map_filter_all_Some:
  "\<forall>r \<in> set batch. process r \<noteq> None \<Longrightarrow> length (List.map_filter process batch) = length batch"
proof -
  assume "\<forall>r \<in> set batch. process r \<noteq> None"
  then have "filter (\<lambda>x. process x \<noteq> None) batch = batch" by (induction batch) auto
  then show ?thesis by (simp add: List.map_filter_def)
qed

lemma length_last_n: "n \<le> length xs \<Longrightarrow> length (last_n n xs) = n"
  by (simp add: last_n_def)

lemma batch_loop_sizes:
  "\<forall>r \<in> set (concat batches). process r \<noteq> None \<Longrightarrow>
   batch_loop process (\<lambda>batch flushed. flushed @ [batch]) batches (docs, flushed, n) = (docs', flushed', n') \<Longrightarrow>
   map length flushed' = map length flushed @ flush_sizes (map length batches) (length docs)
   \<and> length docs' = length docs + sum_list (map length batches)"
proof (induction batches arbitrary: docs flushed n)
  case Nil
  then show ?case by simp
next
  case (Cons batch rest)
  let ?docs = "docs @ List.map_filter process batch"
  from Cons.prems(1) have b: "\<forall>r \<in> set batch. process r \<noteq> None"
    and r: "\<forall>r \<in> set (concat rest). process r \<noteq> None" by simp_all
  have len: "length ?docs = length docs + length batch"
    by (simp add: length_map_filter_all_Some [OF b])
  show ?case
  proof (cases "length ?docs \<ge> 1000")
    case True
    with Cons.prems(2)
    have "batch_loop process (\<lambda>batch flushed. flushed @ [batch]) rest
            (?docs, flushed @ [last_n 1000 ?docs], n + length (last_n 1000 ?docs)) = (docs', flushed', n')"
      by (simp add: Let_def)
    from Cons.IH [OF r this] True len show ?thesis
      by (simp add: length_last_n)
  next
    case False
    with Cons.prems(2)
    have "batch_loop process (\<lambda>batch flushed. flushed @ [batch]) rest (?docs, flushed, n) = (docs', flushed', n')"
      by (simp add: Let_def)
    from Cons.IH [OF r this] False len show ?thesis
      by simp
  qed
qed

lemma batches_of_Nil: "batches_of n [] = []"
  by (simp add: batches_of.simps)

lemma batches_of_step:
  "xs \<noteq> [] \<Longrightarrow> n > 0 \<Longrightarrow> batches_of n xs = take n xs # batches_of n (drop n xs)"
  by (subst batches_of.simps) simp

lemma batches_of_lengths:
  "n > 0 \<Longrightarrow> length xs = k * n \<Longrightarrow> map length (batches_of n xs) = replicate k n"
proof (induction k arbitrary: xs)
  case 0
  then show ?case by (simp add: batches_of_Nil)
next
  case (Suc k)
  from Suc.prems have ne: "xs \<noteq> []" by auto
  from Suc.prems have t: "length (take n xs) = n" by simp
  from Suc.prems have d: "length (drop n xs) = k * n" by simp
  from Suc.IH [OF Suc.prems(1) d] t show ?case
    by (simp add: batches_of_step [OF ne Suc.prems(1)])
qed

lemma concat_batches_of: "n > 0 \<Longrightarrow> concat (batches_of n xs) = xs"
proof (induction n xs rule: batches_of.induct)
  case (1 n xs)
  show ?case
  proof (cases "xs = []")
    case True
    then show ?thesis by (simp add: batches_of_Nil)
  next
    case False
    with 1 show ?thesis by (simp add: batches_of_step)
  qed
qed

lemma flush_sizes_2500: "flush_sizes (replicate 25 100) 0 = replicate 16 1000"
  by code_simp

lemma sum_list_replicate_25: "sum_list (replicate 25 (100::nat)) = 2500"
  by (simp add: sum_list_replicate)

text \<open>
  Claim C2. With the pipeline's own \<open>process_legal_document\<close> no document is ever
  collected (\<open>clean_text\<close> raises on every text), so whatever the files hold, the run
  returns no document and leaves the stores and the list of flushes as they were: 2,500
  well-formed records give no flush at all. And the checkpoint test itself is not the one
  the claim describes: for any per-document function that gives a document for each of
  the 2,500 records of one supported file, the loop flushes the last 1,000 documents
  after every batch of 100 from the tenth batch on, and the remainder at the end: sixteen
  flushes of 1,000 documents and one of 500.
\<close>

theorem process_courtlistener_files_flushes:
  "process_courtlistener_files self read files st n = ([], st, n)
   \<and> (supported_file f \<and> length (read' f) = 2500 \<and> (\<forall>r \<in> set (read' f). process r \<noteq> None) \<longrightarrow>
        map length (fst (snd (checkpointed_run read' process (\<lambda>batch flushed. flushed @ [batch]) [f] [] 0)))
        = replicate 16 1000 @ [500])"
proof (intro conjI impI)
  have "file_loop read (process_legal_document self) (flush self) files ([], st, n) = ([], st, n)"
    by (rule file_loop_no_documents) (rule process_legal_document_None)
  then show "process_courtlistener_files self read files st n = ([], st, n)"
    by (simp add: process_courtlistener_files_def checkpointed_run_def)
next
  assume h: "supported_file f \<and> length (read' f) = 2500 \<and> (\<forall>r \<in> set (read' f). process r \<noteq> None)"
  let ?store = "\<lambda>batch flushed. flushed @ [batch]"
  obtain docs flushed m where
    bl: "batch_loop process ?store (batches_of 100 (read' f)) ([], [], 0) = (docs, flushed, m)"
    by (cases "batch_loop process ?store (batches_of 100 (read' f)) ([], [], 0)") auto
  from h have ok: "\<forall>r \<in> set (concat (batches_of 100 (read' f))). process r \<noteq> None"
    by (simp add: concat_batches_of)
  from h have "length (read' f) = 25 * 100" by simp
  then have lens: "map length (batches_of 100 (read' f)) = replicate 25 100"
    by (rule batches_of_lengths [rotated]) simp
  from batch_loop_sizes [OF ok bl]
  have sizes: "map length flushed = replicate 16 1000" and total: "length docs = 2500"
    by (simp_all add: lens flush_sizes_2500 sum_list_replicate_25)
  from total have ne: "docs \<noteq> []" by auto
  from h bl have "file_loop read' process ?store [f] ([], [], 0) = (docs, flushed, m)"
    by simp
  then have "fst (snd (checkpointed_run read' process ?store [f] [] 0)) = flushed @ [last_n 500 docs]"
    using total ne by (simp add: checkpointed_run_def)
  then show "map length (fst (snd (checkpointed_run read' process ?store [f] [] 0)))
        = replicate 16 1000 @ [500]"
    using sizes total by (simp add: length_last_n)
qed

theorem process_courtlistener_files_flushes_witness:
  "map length
     (fst (snd (checkpointed_run (\<lambda>path. [0..<2500]) Some (\<lambda>batch flushed. flushed @ [batch])
                  [lit ''opinions.json''] [] 0)))
   = replicate 16 1000 @ [500]"
proof -
  have s: "supported_file (lit ''opinions.json'')"
    by (simp add: supported_file_def lit_def suffix_to_prefix)
  have l: "length ((\<lambda>path. [0..<2500]) (lit ''opinions.json'')) = 2500" by simp
  have p: "\<forall>r \<in> set ((\<lambda>path. [0..<2500]) (lit ''opinions.json'')). Some r \<noteq> None" by simp
  from s l p
    process_courtlistener_files_flushes [of _ _ _ _ _ "lit ''opinions.json''" "\<lambda>path. [0..<2500]" Some]
  show ?thesis by blast
qed

end
